theory Spec2Isabelle
  imports Main "HOL-Library.Sublist"
begin

section \<open>Error taxonomy (errors.ts)\<close>

datatype PiholeErrorCode =
    Unauthorized | TotpRequired | InvalidTotp | SessionExpired
  | NetworkError | Timeout | ConnectionRefused | CertificateError
  | BadRequest | NotFound | Conflict | ValidationError
  | ServerError | ServiceUnavailable
  | ParseError | Unknown

record PiholeError =
  code :: PiholeErrorCode
  message :: string
  hint :: "string option"
  status :: int
  apiKey :: "string option"

text \<open>The optional fourth argument of \<open>createError\<close>: \<open>{ hint?: string; apiKey?: string }\<close>.\<close>

datatype ErrorOptions = ErrorOptions (opt_hint: "string option") (opt_apiKey: "string option")

definition createError ::
  "PiholeErrorCode \<Rightarrow> string \<Rightarrow> int \<Rightarrow> ErrorOptions option \<Rightarrow> PiholeError" where
  "createError c m s options =
     \<lparr> code = c, message = m,
       hint = (case options of None \<Rightarrow> None | Some opt \<Rightarrow> opt_hint opt),
       status = s,
       apiKey = (case options of None \<Rightarrow> None | Some opt \<Rightarrow> opt_apiKey opt) \<rparr>"

text \<open>The \<open>switch\<close> of \<open>statusToErrorCode\<close>, case by case, with its \<open>default\<close> branch last.\<close>

definition statusToErrorCode :: "int \<Rightarrow> PiholeErrorCode" where
  "statusToErrorCode s =
     (if s = 400 then BadRequest
      else if s = 401 then Unauthorized
      else if s = 403 then Unauthorized
      else if s = 404 then NotFound
      else if s = 409 then Conflict
      else if s = 422 then ValidationError
      else if s = 500 then ServerError
      else if s = 502 \<or> s = 503 \<or> s = 504 then ServiceUnavailable
      else if s \<ge> 400 \<and> s < 500 then BadRequest
      else ServerError)"

definition apiKeyToErrorCode :: "string \<Rightarrow> PiholeErrorCode" where
  "apiKeyToErrorCode k =
     (if k = ''unauthorized'' \<or> k = ''auth_failed'' then Unauthorized
      else if k = ''totp_required'' then TotpRequired
      else if k = ''bad_totp'' then InvalidTotp
      else if k = ''session_expired'' then SessionExpired
      else if k = ''not_found'' then NotFound
      else if k = ''conflict'' then Conflict
      else if k = ''bad_request'' then BadRequest
      else Unknown)"

definition isRetryable :: "PiholeErrorCode \<Rightarrow> bool" where
  "isRetryable c \<longleftrightarrow>
     c = NetworkError \<or> c = Timeout \<or> c = ServiceUnavailable \<or> c = ServerError"

definition isAuthError :: "PiholeErrorCode \<Rightarrow> bool" where
  "isAuthError c \<longleftrightarrow> c = Unauthorized \<or> c = SessionExpired \<or> c = TotpRequired"

section \<open>Result (result.ts)\<close>

datatype ('a, 'e) Result = Ok 'a | Err 'e

definition isOk :: "('a, 'e) Result \<Rightarrow> bool" where
  "isOk r = (case r of Ok _ \<Rightarrow> True | Err _ \<Rightarrow> False)"

definition isErr :: "('a, 'e) Result \<Rightarrow> bool" where
  "isErr r = (\<not> isOk r)"

section \<open>Transport: one HTTP attempt (http.ts)\<close>

subsection \<open>JavaScript strings\<close>

text \<open>
  Strings are byte strings; \<open>toLowerCase\<close> is modelled on the ASCII letters, which is
  all that the patterns searched for by \<open>handleFetchError\<close> contain.
  \<open>includes_str s p\<close> is \<open>s.includes(p)\<close>: \<open>p\<close> occurs in \<open>s\<close> as a contiguous block.
\<close>

definition lowerChar :: "char \<Rightarrow> char" where
  "lowerChar c =
     (case map_of (zip ''ABCDEFGHIJKLMNOPQRSTUVWXYZ'' ''abcdefghijklmnopqrstuvwxyz'') c of
        Some d \<Rightarrow> d
      | None \<Rightarrow> c)"

definition toLowerCase :: "string \<Rightarrow> string" where
  "toLowerCase s = map lowerChar s"

fun includes_str :: "string \<Rightarrow> string \<Rightarrow> bool" where
  "includes_str [] p = (p = [])"
| "includes_str (c # s) p = (prefix p (c # s) \<or> includes_str s p)"

text \<open>Truthiness of an optional string: \<open>undefined\<close> and \<open>""\<close> are falsy.\<close>

definition truthy :: "string option \<Rightarrow> bool" where
  "truthy x = (case x of None \<Rightarrow> False | Some s \<Rightarrow> s \<noteq> [])"

subsection \<open>What a fetch can produce\<close>

text \<open>
  The \<open>error\<close> member of an error body, at its declared type
  \<open>{ key?: string; message?: string; hint?: string }\<close>.
\<close>

datatype ErrorInfo =
  ErrorInfo (key: "string option") (error_message: "string option") (error_hint: "string option")

text \<open>
  The outcome of \<open>response.json()\<close>: it throws (\<open>NotJson\<close>), or it yields a value, seen by
  \<open>handleResponse\<close> at the type \<open>T\<close> of the call (\<open>as_data\<close>) and by \<open>parseErrorResponse\<close> at
  the type \<open>{ error?: ... }\<close> (\<open>as_error\<close>, \<open>None\<close> when the value is not an object or has
  no \<open>error\<close> member).
\<close>

datatype 'a JsonBody = NotJson | Json (as_data: 'a) (as_error: "ErrorInfo option")

record 'a Response =
  status :: int
  json :: "'a JsonBody"

text \<open>\<open>response.ok\<close>: the status is in the range 200 to 299.\<close>

definition response_ok :: "'a Response \<Rightarrow> bool" where
  "response_ok r \<longleftrightarrow> 200 \<le> Response.status r \<and> Response.status r \<le> 299"

text \<open>
  A value thrown by \<open>fetch\<close> (or by building its arguments): an \<open>Error\<close> object with its
  \<open>name\<close> and \<open>message\<close>, or a value that is not an instance of \<open>Error\<close>.
\<close>

datatype Thrown = ErrorObject (name: string) (thrown_message: string) | NonError

datatype 'a FetchOutcome = Responds "'a Response" | Throws Thrown

subsection \<open>Classifying the outcome of one attempt\<close>

text \<open>The decimal numeral of a status, for the template string \<open>`HTTP ${response.status}`\<close>.\<close>

fun decimal :: "nat \<Rightarrow> string" where
  "decimal n =
     (if n < 10 then [''0123456789'' ! n]
      else decimal (n div 10) @ [''0123456789'' ! (n mod 10)])"

definition show_status :: "int \<Rightarrow> string" where
  "show_status s = (if s < 0 then ''-'' @ decimal (nat (- s)) else decimal (nat s))"

text \<open>
  \<open>parseErrorResponse\<close>: \<open>errorData\<close> stays \<open>{}\<close> when the body is not JSON or not an object;
  the key is used when it is truthy, the status otherwise.
\<close>

definition parseErrorResponse :: "'a Response \<Rightarrow> PiholeError" where
  "parseErrorResponse response =
     (let errorData = (case json response of NotJson \<Rightarrow> None | Json _ e \<Rightarrow> e);
          apiKey = (case errorData of None \<Rightarrow> None | Some e \<Rightarrow> key e);
          c = (case apiKey of
                 Some k \<Rightarrow>
                   if k \<noteq> [] then apiKeyToErrorCode k
                   else statusToErrorCode (Response.status response)
               | None \<Rightarrow> statusToErrorCode (Response.status response))
      in createError c
           (case (case errorData of None \<Rightarrow> None | Some e \<Rightarrow> error_message e) of
              Some m \<Rightarrow> m
            | None \<Rightarrow> ''HTTP '' @ show_status (Response.status response))
           (Response.status response)
           (Some (ErrorOptions
              (case errorData of None \<Rightarrow> None | Some e \<Rightarrow> error_hint e)
              apiKey)))"

text \<open>
  \<open>handleResponse\<close>. A successful value is \<open>'a option\<close>: \<open>None\<close> is the \<open>undefined\<close> that the
  204 branch returns as a \<open>T\<close>.
\<close>

definition handleResponse :: "'a Response \<Rightarrow> ('a option, PiholeError) Result" where
  "handleResponse response =
     (if \<not> response_ok response then Err (parseErrorResponse response)
      else if Response.status response = 204 then Ok None
      else (case json response of
              Json d _ \<Rightarrow> Ok (Some d)
            | NotJson \<Rightarrow>
                Err (createError ParseError ''Failed to parse response''
                       (Response.status response) None)))"

definition handleFetchError :: "Thrown \<Rightarrow> PiholeError" where
  "handleFetchError error =
     (case error of
        ErrorObject nm m \<Rightarrow>
          if nm = ''AbortError'' then createError Timeout ''Request timed out'' 0 None
          else
            let msg = toLowerCase m in
            if includes_str msg ''ssl'' \<or> includes_str msg ''certificate'' \<or>
               includes_str msg ''cert_'' \<or> includes_str msg ''sec_error''
            then createError CertificateError ''SSL certificate error'' 0
                   (Some (ErrorOptions (Some ''Accept the certificate in your browser first'') None))
            else if includes_str msg ''econnrefused'' \<or> includes_str msg ''connection refused''
            then createError ConnectionRefused ''Connection refused'' 0 None
            else createError NetworkError m 0 None
      | NonError \<Rightarrow> createError Unknown ''Unknown error occurred'' 0 None)"

section \<open>Retry orchestrator: \<open>HttpClient.request\<close> (http.ts)\<close>

datatype HttpMethod = GET | POST | PUT | PATCH | DELETE

text \<open>\<open>Record<string, string>\<close>: keys in insertion order.\<close>

type_synonym Headers = "(string \<times> string) list"

text \<open>A request body (\<open>unknown\<close> in the source): the JSON values a caller builds.\<close>

datatype JsValue =
    JsNull | JsBool bool | JsNumber int | JsString string
  | JsObject "(string \<times> JsValue) list"

text \<open>The test \<open>options.body ? ... : undefined\<close>.\<close>

definition body_truthy :: "JsValue option \<Rightarrow> bool" where
  "body_truthy b =
     (case b of
        None \<Rightarrow> False
      | Some JsNull \<Rightarrow> False
      | Some (JsBool x) \<Rightarrow> x
      | Some (JsNumber n) \<Rightarrow> n \<noteq> 0
      | Some (JsString s) \<Rightarrow> s \<noteq> []
      | Some (JsObject _) \<Rightarrow> True)"

record HttpRequestOptions =
  "method" :: HttpMethod
  path :: string
  body :: "JsValue option"
  headers :: "Headers option"
  timeout :: "int option"
  noRetry :: "bool option"

record HttpConfig =
  baseUrl :: string
  timeout :: int
  maxRetries :: int
  retryDelayBase :: int
  retryDelayMax :: int
  backoffMultiplier :: int

definition DEFAULT_HTTP_CONFIG :: HttpConfig where
  "DEFAULT_HTTP_CONFIG =
     \<lparr> baseUrl = [], timeout = 10000, maxRetries = 3,
       retryDelayBase = 1000, retryDelayMax = 10000, backoffMultiplier = 2 \<rparr>"

text \<open>The arguments of one call of \<open>fetch\<close>; \<open>abort_after\<close> is the delay of the abort timer.\<close>

record FetchCall =
  url :: string
  fetch_method :: HttpMethod
  fetch_headers :: Headers
  fetch_body :: "JsValue option"
  abort_after :: int

text \<open>
  What the program does to its environment, in order: calls of \<open>fetch\<close> and sleeps.
  The trace also records the entry of \<open>HttpClient.request\<close> (with the auth headers it was
  given) and of \<open>SessionManager.handleUnauthorized\<close>, so that theorems can count them.
\<close>

datatype Event =
    Fetch FetchCall
  | Sleep int
  | Request HttpRequestOptions "Headers option"
  | HandleUnauthorized

text \<open>
  The environment: \<open>now\<close> is what \<open>Date.now()\<close> returns (Unix milliseconds); \<open>net n c\<close> is
  what the network answers to the \<open>n\<close>-th call of \<open>fetch\<close> (counted from 0) when its
  arguments are \<open>c\<close>: the time it takes and the outcome. An abort by the timer is the
  outcome \<open>Throws (ErrorObject ''AbortError'' _)\<close>.
\<close>

record 'a World =
  now :: nat
  net :: "nat \<Rightarrow> FetchCall \<Rightarrow> nat \<times> 'a FetchOutcome"
  trace :: "Event list"

fun is_Fetch :: "Event \<Rightarrow> bool" where
  "is_Fetch (Fetch _) = True"
| "is_Fetch _ = False"

fun is_Sleep :: "Event \<Rightarrow> bool" where
  "is_Sleep (Sleep _) = True"
| "is_Sleep _ = False"

definition fetches :: "'a World \<Rightarrow> nat" where
  "fetches w = length (filter is_Fetch (trace w))"

fun sleeps_of :: "Event list \<Rightarrow> int list" where
  "sleeps_of [] = []"
| "sleeps_of (Sleep d # es) = d # sleeps_of es"
| "sleeps_of (_ # es) = sleeps_of es"

definition sleeps :: "'a World \<Rightarrow> int list" where
  "sleeps w = sleeps_of (trace w)"

definition log_event :: "Event \<Rightarrow> 'a World \<Rightarrow> 'a World" where
  "log_event e w = w\<lparr>trace := trace w @ [e]\<rparr>"

text \<open>Object spread \<open>{ ...a, ...b }\<close>: the entries of \<open>b\<close> are set in order on a copy of \<open>a\<close>.\<close>

fun set_header :: "string \<Rightarrow> string \<Rightarrow> Headers \<Rightarrow> Headers" where
  "set_header k v [] = [(k, v)]"
| "set_header k v ((k', v') # hs) =
     (if k = k' then (k, v) # hs else (k', v') # set_header k v hs)"

definition spread :: "Headers \<Rightarrow> Headers option \<Rightarrow> Headers" where
  "spread a b =
     (case b of None \<Rightarrow> a | Some hs \<Rightarrow> fold (\<lambda>(k, v). set_header k v) hs a)"

definition sleep :: "int \<Rightarrow> 'a World \<Rightarrow> 'a World" where
  "sleep ms w = log_event (Sleep ms) (w\<lparr>now := now w + nat ms\<rparr>)"

definition calculateDelay :: "HttpConfig \<Rightarrow> nat \<Rightarrow> int" where
  "calculateDelay cfg attempt =
     (let delay = retryDelayBase cfg * backoffMultiplier cfg ^ attempt
      in min delay (retryDelayMax cfg))"

text \<open>The arguments that \<open>executeRequest\<close> passes to \<open>fetch\<close>.\<close>

definition fetchCall ::
  "HttpConfig \<Rightarrow> HttpRequestOptions \<Rightarrow> Headers option \<Rightarrow> int \<Rightarrow> FetchCall" where
  "fetchCall cfg options authHeaders tmo =
     \<lparr> url = baseUrl cfg @ path options,
       fetch_method = method options,
       fetch_headers =
         spread (spread [(''Content-Type'', ''application/json'')] authHeaders) (headers options),
       fetch_body = (if body_truthy (body options) then body options else None),
       abort_after = tmo \<rparr>"

text \<open>What the attempt answered by \<open>outcome\<close> returns: the \<open>try\<close>/\<open>catch\<close> of \<open>executeRequest\<close>.\<close>

definition attemptResult :: "'a FetchOutcome \<Rightarrow> ('a option, PiholeError) Result" where
  "attemptResult outcome =
     (case outcome of
        Responds response \<Rightarrow> handleResponse response
      | Throws error \<Rightarrow> Err (handleFetchError error))"

definition executeRequest ::
  "HttpConfig \<Rightarrow> HttpRequestOptions \<Rightarrow> Headers option \<Rightarrow> int \<Rightarrow> 'a World \<Rightarrow>
     ('a option, PiholeError) Result \<times> 'a World" where
  "executeRequest cfg options authHeaders tmo w =
     (let call = fetchCall cfg options authHeaders tmo;
          (elapsed, outcome) = net w (fetches w) call;
          w' = log_event (Fetch call) (w\<lparr>now := now w + elapsed\<rparr>)
      in (attemptResult outcome, w'))"

text \<open>
  The \<open>for\<close> loop of \<open>request\<close>, from \<open>attempt\<close> on, with the current \<open>lastError\<close>; the
  expression after the loop is its exit.
\<close>

function request_loop ::
  "HttpConfig \<Rightarrow> HttpRequestOptions \<Rightarrow> Headers option \<Rightarrow> int \<Rightarrow> int \<Rightarrow> nat \<Rightarrow>
     PiholeError option \<Rightarrow> 'a World \<Rightarrow> ('a option, PiholeError) Result \<times> 'a World" where
  "request_loop cfg options authHeaders tmo maxAttempts attempt lastError w =
     (if int attempt < maxAttempts then
        (let (result, w1) = executeRequest cfg options authHeaders tmo w in
         case result of
           Ok d \<Rightarrow> (Ok d, w1)
         | Err e \<Rightarrow>
             if \<not> isRetryable (code e) then (Err e, w1)
             else
               request_loop cfg options authHeaders tmo maxAttempts (Suc attempt) (Some e)
                 (if int attempt < maxAttempts - 1
                  then sleep (calculateDelay cfg attempt) w1 else w1))
      else
        (Err (case lastError of
                Some e \<Rightarrow> e
              | None \<Rightarrow> createError Unknown ''Request failed'' 0 None), w))"
  by pat_completeness auto
termination
  by (relation "measure (\<lambda>(cfg, options, authHeaders, tmo, maxAttempts, attempt, lastError, w).
        nat (maxAttempts - int attempt))") auto

declare request_loop.simps [simp del]

definition request ::
  "HttpConfig \<Rightarrow> HttpRequestOptions \<Rightarrow> Headers option \<Rightarrow> 'a World \<Rightarrow>
     ('a option, PiholeError) Result \<times> 'a World" where
  "request cfg options authHeaders w =
     (let w0 = log_event (Request options authHeaders) w in
      if baseUrl cfg = [] then
        (Err (createError BadRequest ''Base URL not configured'' 0 None), w0)
      else
        let tmo = (case HttpRequestOptions.timeout options of
                     Some t \<Rightarrow> t
                   | None \<Rightarrow> HttpConfig.timeout cfg);
            maxAttempts = (if noRetry options = Some True then 1 else maxRetries cfg + 1)
        in request_loop cfg options authHeaders tmo maxAttempts 0 None w0)"

subsection \<open>Vocabulary for the classification properties\<close>

text \<open>The key that the parsed error body supplies, if any.\<close>

definition responseKey :: "'a Response \<Rightarrow> string option" where
  "responseKey r =
     (case json r of
        NotJson \<Rightarrow> None
      | Json _ None \<Rightarrow> None
      | Json _ (Some e) \<Rightarrow> key e)"

text \<open>The tests that \<open>handleFetchError\<close> makes on the lower-cased message.\<close>

definition indicates_certificate :: "string \<Rightarrow> bool" where
  "indicates_certificate m \<longleftrightarrow>
     includes_str (toLowerCase m) ''ssl'' \<or> includes_str (toLowerCase m) ''certificate'' \<or>
     includes_str (toLowerCase m) ''cert_'' \<or> includes_str (toLowerCase m) ''sec_error''"

definition indicates_refused :: "string \<Rightarrow> bool" where
  "indicates_refused m \<longleftrightarrow>
     includes_str (toLowerCase m) ''econnrefused'' \<or>
     includes_str (toLowerCase m) ''connection refused''"


subsection \<open>Vocabulary for the retry properties\<close>

text \<open>A failure that the loop of \<open>request\<close> retries.\<close>

definition retryable_failure :: "('a, PiholeError) Result \<Rightarrow> bool" where
  "retryable_failure r = (case r of Ok _ \<Rightarrow> False | Err e \<Rightarrow> isRetryable (code e))"

text \<open>The arguments of the calls of \<open>fetch\<close> that \<open>request\<close> makes for a descriptor.\<close>

definition requestCall ::
  "HttpConfig \<Rightarrow> HttpRequestOptions \<Rightarrow> Headers option \<Rightarrow> FetchCall" where
  "requestCall cfg options authHeaders =
     fetchCall cfg options authHeaders
       (case HttpRequestOptions.timeout options of
          Some t \<Rightarrow> t
        | None \<Rightarrow> HttpConfig.timeout cfg)"

text \<open>
  What the attempt of \<open>request\<close> with index \<open>i\<close> returns, when \<open>request\<close> is called in the
  world \<open>w\<close>: the classified answer of the network to the call of \<open>fetch\<close> number
  \<open>fetches w + i\<close>.
\<close>

definition attemptOutcome ::
  "HttpConfig \<Rightarrow> HttpRequestOptions \<Rightarrow> Headers option \<Rightarrow> 'a World \<Rightarrow> nat \<Rightarrow>
     ('a option, PiholeError) Result" where
  "attemptOutcome cfg options authHeaders w i =
     attemptResult (snd (net w (fetches w + i) (requestCall cfg options authHeaders)))"

text \<open>The number of calls of \<open>fetch\<close> made between two worlds.\<close>

definition attempts_made :: "'a World \<Rightarrow> 'a World \<Rightarrow> nat" where
  "attempts_made w w' = fetches w' - fetches w"

text \<open>The delays slept between two worlds.\<close>

definition delays_slept :: "'a World \<Rightarrow> 'a World \<Rightarrow> int list" where
  "delays_slept w w' = drop (length (sleeps w)) (sleeps w')"

text \<open>The attempt budget that \<open>request\<close> computes for a descriptor.\<close>

definition maxAttemptsOf :: "HttpConfig \<Rightarrow> HttpRequestOptions \<Rightarrow> int" where
  "maxAttemptsOf cfg options = (if noRetry options = Some True then 1 else maxRetries cfg + 1)"

subsection \<open>Vocabulary for the properties of traces\<close>

text \<open>The events between two worlds.\<close>

definition new_events :: "'a World \<Rightarrow> 'a World \<Rightarrow> Event list" where
  "new_events w w' = drop (length (trace w)) (trace w')"

text \<open>The number of calls of \<open>handleUnauthorized\<close> between two worlds.\<close>

definition reauthentications :: "'a World \<Rightarrow> 'a World \<Rightarrow> nat" where
  "reauthentications w w' = length (filter (\<lambda>e. e = HandleUnauthorized) (new_events w w'))"

text \<open>
  The calls of \<open>HttpClient.request\<close> for a descriptor among some events, in order: the
  auth headers of each.
\<close>

fun requests_for :: "HttpRequestOptions \<Rightarrow> Event list \<Rightarrow> Headers option list" where
  "requests_for options [] = []"
| "requests_for options (Request options' ah # es) =
     (if options' = options then ah # requests_for options es else requests_for options es)"
| "requests_for options (_ # es) = requests_for options es"

text \<open>
  Events among which there is no call of \<open>handleUnauthorized\<close> and no call of
  \<open>HttpClient.request\<close> for a descriptor.
\<close>

definition quiet :: "HttpRequestOptions \<Rightarrow> Event list \<Rightarrow> bool" where
  "quiet options es \<longleftrightarrow> HandleUnauthorized \<notin> set es \<and> requests_for options es = []"

section \<open>Session manager (session.ts)\<close>

subsection \<open>Types (types/auth.ts)\<close>

record Session =
  valid :: bool
  sid :: string
  csrf :: string
  validity :: int
  totp :: bool

record AuthResponse =
  session :: Session

text \<open>
  What a parsed success body is, for the session manager: a value with a \<open>session\<close>
  member, which \<open>authenticate\<close> reads at the type \<open>AuthResponse\<close>, or any other value.
\<close>

datatype 't Payload = AuthData AuthResponse | OtherData 't

subsection \<open>State\<close>

text \<open>
  The argument of the constructor, a \<open>Partial<SessionConfig>\<close>: every member may be absent.
\<close>

record PartialSessionConfig =
  password :: "string option"
  sid :: "string option"
  csrf :: "string option"
  autoRefresh :: "bool option"
  refreshThreshold :: "int option"

record SessionConfig =
  password :: "string option"
  sid :: "string option"
  csrf :: "string option"
  autoRefresh :: bool
  refreshThreshold :: int

record SessionState =
  sid :: string
  csrf :: string
  expiresAt :: int
  totpRequired :: bool

text \<open>
  The object: \<open>state\<close> and \<open>password\<close> are \<open>None\<close> for \<open>null\<close>. The type \<open>'p\<close> is what stands
  for a \<open>Promise<boolean>\<close> in \<open>refreshPromise\<close>.
\<close>

record 'p SessionManager =
  config :: SessionConfig
  state :: "SessionState option"
  password :: "string option"
  refreshPromise :: "'p option"

text \<open>
  How an asynchronous call ends: its promise is resolved with a value, or rejected
  (\<open>authenticate\<close> throws a \<open>TypeError\<close> when the success body has no \<open>session\<close>).
\<close>

datatype 'r Settled = Resolves 'r | Rejects

text \<open>
  The constructor: the defaults \<open>autoRefresh: true\<close>, \<open>refreshThreshold: 60\<close> overridden by
  the members present; \<open>n\<close> is the value of \<open>Date.now()\<close>.
\<close>

definition new_SessionManager :: "PartialSessionConfig \<Rightarrow> nat \<Rightarrow> 'p SessionManager" where
  "new_SessionManager c n =
     \<lparr> config =
         \<lparr> SessionConfig.password = PartialSessionConfig.password c,
           SessionConfig.sid = PartialSessionConfig.sid c,
           SessionConfig.csrf = PartialSessionConfig.csrf c,
           SessionConfig.autoRefresh =
             (case PartialSessionConfig.autoRefresh c of None \<Rightarrow> True | Some b \<Rightarrow> b),
           SessionConfig.refreshThreshold =
             (case PartialSessionConfig.refreshThreshold c of None \<Rightarrow> 60 | Some t \<Rightarrow> t) \<rparr>,
       state =
         (if truthy (PartialSessionConfig.sid c) \<and> truthy (PartialSessionConfig.csrf c)
          then Some \<lparr> SessionState.sid = the (PartialSessionConfig.sid c),
                      SessionState.csrf = the (PartialSessionConfig.csrf c),
                      expiresAt = int n + 300000,
                      totpRequired = False \<rparr>
          else None),
       password =
         (if truthy (PartialSessionConfig.password c) then PartialSessionConfig.password c
          else None),
       refreshPromise = None \<rparr>"

subsection \<open>Queries\<close>

definition isExpired :: "'p SessionManager \<Rightarrow> 'a World \<Rightarrow> bool" where
  "isExpired sm w =
     (case state sm of
        None \<Rightarrow> True
      | Some s \<Rightarrow> int (now w) \<ge> expiresAt s)"

definition hasSession :: "'p SessionManager \<Rightarrow> 'a World \<Rightarrow> bool" where
  "hasSession sm w \<longleftrightarrow> state sm \<noteq> None \<and> \<not> isExpired sm w"

definition needsRefresh :: "'p SessionManager \<Rightarrow> 'a World \<Rightarrow> bool" where
  "needsRefresh sm w =
     (case state sm of
        None \<Rightarrow> False
      | Some s \<Rightarrow>
          if \<not> SessionConfig.autoRefresh (config sm) then False
          else
            let threshold = SessionConfig.refreshThreshold (config sm) * 1000
            in int (now w) \<ge> expiresAt s - threshold)"

definition isTotpRequired :: "'p SessionManager \<Rightarrow> bool" where
  "isTotpRequired sm = (case state sm of None \<Rightarrow> False | Some s \<Rightarrow> totpRequired s)"

definition getAuthHeaders :: "'p SessionManager \<Rightarrow> Headers option" where
  "getAuthHeaders sm =
     (case state sm of
        None \<Rightarrow> None
      | Some s \<Rightarrow>
          Some [(''X-FTL-SID'', SessionState.sid s), (''X-FTL-CSRF'', SessionState.csrf s)])"

subsection \<open>Operations\<close>


definition clear :: "'p SessionManager \<Rightarrow> 'p SessionManager" where
  "clear sm = sm\<lparr>state := None, refreshPromise := None\<rparr>"

definition updateSession ::
  "Session \<Rightarrow> 'p SessionManager \<Rightarrow> 'a World \<Rightarrow> 'p SessionManager" where
  "updateSession s sm w =
     sm\<lparr>state :=
          Some \<lparr> SessionState.sid = Session.sid s,
                 SessionState.csrf = Session.csrf s,
                 expiresAt = int (now w) + validity s * 1000,
                 totpRequired = False \<rparr>\<rparr>"

text \<open>The descriptor of the login call, for a password and an optional TOTP code.\<close>

definition loginOptions :: "string \<Rightarrow> string option \<Rightarrow> HttpRequestOptions" where
  "loginOptions pw otp =
     \<lparr> method = POST, path = ''/api/auth'',
       body = Some (JsObject
                ((''password'', JsString pw) #
                 (if truthy otp then [(''totp'', JsString (the otp))] else []))),
       headers = None, HttpRequestOptions.timeout = None, noRetry = Some True \<rparr>"

definition logoutOptions :: HttpRequestOptions where
  "logoutOptions =
     \<lparr> method = DELETE, path = ''/api/auth'', body = None,
       headers = None, HttpRequestOptions.timeout = None, noRetry = Some True \<rparr>"

text \<open>
  The part of \<open>authenticate\<close> that runs once the login call has returned \<open>result\<close>, in the
  world \<open>w\<close> of that moment.
\<close>

definition authenticated ::
  "('t Payload option, PiholeError) Result \<Rightarrow> 'p SessionManager \<Rightarrow> 'a World \<Rightarrow>
     bool Settled \<times> 'p SessionManager" where
  "authenticated result sm w =
     (case result of
        Err e \<Rightarrow>
          (Resolves False,
           if code e = TotpRequired
           then sm\<lparr>state := Some \<lparr> SessionState.sid = [], SessionState.csrf = [],
                                    expiresAt = 0, totpRequired = True \<rparr>\<rparr>
           else sm)
      | Ok None \<Rightarrow> (Rejects, sm)
      | Ok (Some (OtherData _)) \<Rightarrow> (Rejects, sm)
      | Ok (Some (AuthData a)) \<Rightarrow> (Resolves True, updateSession (session a) sm w))"

definition authenticate ::
  "HttpConfig \<Rightarrow> string option \<Rightarrow> 'p SessionManager \<Rightarrow> 't Payload World \<Rightarrow>
     bool Settled \<times> 'p SessionManager \<times> 't Payload World" where
  "authenticate http otp sm w =
     (if \<not> truthy (password sm) then (Resolves False, sm, w)
      else
        let (result, w1) = request http (loginOptions (the (password sm)) otp) None w;
            (outcome, sm1) = authenticated result sm w1
        in (outcome, sm1, w1))"

definition logout ::
  "HttpConfig \<Rightarrow> 'p SessionManager \<Rightarrow> 'a World \<Rightarrow> bool \<times> 'p SessionManager \<times> 'a World" where
  "logout http sm w =
     (if state sm = None then (True, sm, w)
      else
        let (result, w1) = request http logoutOptions (getAuthHeaders sm) w;
            sm1 = clear sm
        in (case result of
              Err e \<Rightarrow> if PiholeError.status e = 401 then (True, sm1, w1) else (False, sm1, w1)
            | Ok _ \<Rightarrow> (True, sm1, w1)))"

definition handleUnauthorized ::
  "HttpConfig \<Rightarrow> 'p SessionManager \<Rightarrow> 't Payload World \<Rightarrow>
     bool Settled \<times> 'p SessionManager \<times> 't Payload World" where
  "handleUnauthorized http sm w =
     authenticate http None (sm\<lparr>state := None\<rparr>) (log_event HandleUnauthorized w)"

text \<open>
  \<open>ensureSession\<close>, run from its call to its return with no other call in between. The
  promise kept in \<open>refreshPromise\<close> stands for the way it settles; the assignment
  \<open>refreshPromise = null\<close> is reached only when the awaited promise resolves.
\<close>

definition ensureSession ::
  "HttpConfig \<Rightarrow> bool Settled SessionManager \<Rightarrow> 't Payload World \<Rightarrow>
     bool Settled \<times> bool Settled SessionManager \<times> 't Payload World" where
  "ensureSession http sm w =
     (if hasSession sm w \<and> \<not> needsRefresh sm w then (Resolves True, sm, w)
      else
        case refreshPromise sm of
          Some p \<Rightarrow> (p, sm, w)
        | None \<Rightarrow>
            let (outcome, sm1, w1) = authenticate http None sm w
            in (case outcome of
                  Resolves result \<Rightarrow> (Resolves result, sm1\<lparr>refreshPromise := None\<rparr>, w1)
                | Rejects \<Rightarrow> (Rejects, sm1\<lparr>refreshPromise := Some Rejects\<rparr>, w1)))"

section \<open>Request facade: \<open>PiholeClient.request\<close> (client.ts)\<close>

definition facadeOptions ::
  "HttpMethod \<Rightarrow> string \<Rightarrow> JsValue option \<Rightarrow> HttpRequestOptions" where
  "facadeOptions m p b =
     \<lparr> method = m, path = p, body = b,
       headers = None, HttpRequestOptions.timeout = None, noRetry = None \<rparr>"

definition client_request ::
  "HttpConfig \<Rightarrow> HttpMethod \<Rightarrow> string \<Rightarrow> JsValue option \<Rightarrow>
     bool Settled SessionManager \<Rightarrow> 't Payload World \<Rightarrow>
     ('t Payload option, PiholeError) Result Settled \<times> bool Settled SessionManager \<times>
       't Payload World" where
  "client_request http m p b sm w =
     (let (ensured, sm1, w1) = ensureSession http sm w in
      case ensured of
        Rejects \<Rightarrow> (Rejects, sm1, w1)
      | Resolves False \<Rightarrow>
          (Resolves (Err (createError Unauthorized ''Not authenticated'' 401 None)), sm1, w1)
      | Resolves True \<Rightarrow>
          let (result, w2) = request http (facadeOptions m p b) (getAuthHeaders sm1) w1 in
          (case result of
             Ok _ \<Rightarrow> (Resolves result, sm1, w2)
           | Err e \<Rightarrow>
               if PiholeError.status e = 401 then
                 (let (reauthed, sm3, w3) = handleUnauthorized http sm1 w2 in
                  case reauthed of
                    Rejects \<Rightarrow> (Rejects, sm3, w3)
                  | Resolves True \<Rightarrow>
                      let (retried, w4) =
                            request http (facadeOptions m p b) (getAuthHeaders sm3) w3
                      in (Resolves retried, sm3, w4)
                  | Resolves False \<Rightarrow> (Resolves result, sm3, w3))
               else (Resolves result, sm1, w2)))"

section \<open>Sequences of operations on a session manager\<close>

text \<open>
  The public operations of \<open>SessionManager\<close>, each run from call to return, and the passing
  of time between them.
\<close>

datatype Operation =
    Call_hasSession | Call_isExpired | Call_needsRefresh | Call_isTotpRequired
  | Call_getAuthHeaders
  | Call_setPassword string
  | Call_clear
  | Call_ensureSession
  | Call_authenticate "string option"
  | Call_logout
  | Call_handleUnauthorized
  | Wait nat



subsection \<open>Shapes of the Session\<close>

text \<open>The two-factor-required state that \<open>authenticate\<close> writes.\<close>

definition totp_state :: SessionState where
  "totp_state =
     \<lparr> SessionState.sid = [], SessionState.csrf = [], expiresAt = 0, totpRequired = True \<rparr>"




text \<open>
  The shape that the operations keep: absent, or exactly the two-factor-required state,
  or a state whose flag is unset.
\<close>

definition session_shape :: "'p SessionManager \<Rightarrow> bool" where
  "session_shape sm =
     (case state sm of
        None \<Rightarrow> True
      | Some s \<Rightarrow> s = totp_state \<or> \<not> totpRequired s)"

text \<open>A Session whose flag is unset has an identifier and a token.\<close>

definition identified :: "'p SessionManager \<Rightarrow> bool" where
  "identified sm =
     (case state sm of
        None \<Rightarrow> True
      | Some s \<Rightarrow> totpRequired s \<or> (SessionState.sid s \<noteq> [] \<and> SessionState.csrf s \<noteq> []))"

text \<open>
  A backend whose successful login responses carry an identifier, a token and a
  positive validity.
\<close>

definition wellformed_logins :: "'t Payload World \<Rightarrow> bool" where
  "wellformed_logins w \<longleftrightarrow>
     (\<forall>n c r a e. snd (net w n c) = Responds r \<and> json r = Json (AuthData a) e \<longrightarrow>
        Session.sid (session a) \<noteq> [] \<and> Session.csrf (session a) \<noteq> [] \<and>
        0 < validity (session a))"

subsection \<open>Where the Session comes from\<close>






text \<open>
  What every operation keeps, for a run that started with the network of \<open>w0\<close>: the
  network, the shape of the Session and, on a backend with well-formed logins, the
  identifier and token of a Session whose flag is unset.
\<close>

definition kept ::
  "'t Payload World \<Rightarrow> bool Settled SessionManager \<times> 't Payload World \<Rightarrow> bool" where
  "kept w0 s \<longleftrightarrow>
     net (snd s) = net w0 \<and> session_shape (fst s) \<and>
     (wellformed_logins w0 \<longrightarrow> identified (fst s))"

section \<open>Concurrent calls of \<open>ensureSession\<close>\<close>

text \<open>
  JavaScript runs one piece of code at a time: an asynchronous function runs from its
  call to its first \<open>await\<close>, and from an \<open>await\<close> to the next, without interruption.
  A call of \<open>ensureSession\<close> therefore runs in pieces, between which other calls may
  start, time may pass and the login may complete. The state below is what the pieces
  share, and \<open>step\<close> runs one piece.
\<close>

text \<open>
  The promise returned by a call of \<open>authenticate\<close>: still pending, with the result that
  its login call returns once the network has answered, or settled.
\<close>

datatype 't Attempt =
    Pending "('t Payload option, PiholeError) Result"
  | Settled "bool Settled"

text \<open>
  A caller of \<open>ensureSession\<close>: suspended at \<open>await this.refreshPromise\<close> on the promise
  that it created; having returned the promise that it found in \<open>refreshPromise\<close>, which
  decides its result; or finished with a result.
\<close>

datatype Caller = AwaitsCreated nat | AwaitsJoined nat | Finished "bool Settled"

text \<open>Promises are named by their index in \<open>promises\<close>; \<open>refreshPromise\<close> holds such an index.\<close>

record 't Client =
  http_client :: HttpConfig
  mgr :: "nat SessionManager"
  world :: "'t Payload World"
  promises :: "'t Attempt list"
  callers :: "Caller list"

text \<open>
  The piece of \<open>authenticate\<close> that runs within the call: without a password the promise
  is resolved with false at once; otherwise \<open>request\<close> is called for the login, with
  \<open>noRetry\<close>, which makes its one call of \<open>fetch\<close> (or none without a base URL) before
  the first suspension. The clock is left to the steps that let time pass.
\<close>

definition authenticate_begin ::
  "HttpConfig \<Rightarrow> string option \<Rightarrow> 'p SessionManager \<Rightarrow> 't Payload World \<Rightarrow>
     't Attempt \<times> 't Payload World" where
  "authenticate_begin cfg otp sm w =
     (if \<not> truthy (password sm) then (Settled (Resolves False), w)
      else
        let (result, w1) = request cfg (loginOptions (the (password sm)) otp) None w
        in (Pending result, w\<lparr>trace := trace w1\<rparr>))"

datatype Step = Call | Settle nat | Resume nat | Tick nat

text \<open>
  \<open>Call\<close>: a new caller runs \<open>ensureSession\<close> up to its return or its \<open>await\<close>.
  \<open>Settle p\<close>: the login of the pending promise \<open>p\<close> has returned, and the rest of
  \<open>authenticate\<close> runs. \<open>Resume i\<close>: caller \<open>i\<close> goes on, if the promise it waits for is
  settled; the creator of the promise runs \<open>this.refreshPromise = null\<close> when the promise
  was resolved, and a rejection is thrown at its \<open>await\<close>. \<open>Tick d\<close>: \<open>d\<close> milliseconds
  pass. A step that is not enabled changes nothing.
\<close>

fun step :: "Step \<Rightarrow> 't Client \<Rightarrow> 't Client" where
  "step Call c =
     (if hasSession (mgr c) (world c) \<and> \<not> needsRefresh (mgr c) (world c)
      then c\<lparr>callers := callers c @ [Finished (Resolves True)]\<rparr>
      else
        case refreshPromise (mgr c) of
          Some p \<Rightarrow> c\<lparr>callers := callers c @ [AwaitsJoined p]\<rparr>
        | None \<Rightarrow>
            let (a, w1) = authenticate_begin (http_client c) None (mgr c) (world c);
                p = length (promises c)
            in c\<lparr>mgr := (mgr c)\<lparr>refreshPromise := Some p\<rparr>,
                 world := w1,
                 promises := promises c @ [a],
                 callers := callers c @ [AwaitsCreated p]\<rparr>)"
| "step (Settle p) c =
     (if p < length (promises c) then
        (case promises c ! p of
           Pending result \<Rightarrow>
             let (outcome, sm1) = authenticated result (mgr c) (world c)
             in c\<lparr>mgr := sm1, promises := (promises c)[p := Settled outcome]\<rparr>
         | Settled _ \<Rightarrow> c)
      else c)"
| "step (Resume i) c =
     (if i < length (callers c) then
        (case callers c ! i of
           AwaitsCreated p \<Rightarrow>
             (if p < length (promises c) then
                (case promises c ! p of
                   Settled (Resolves result) \<Rightarrow>
                     c\<lparr>mgr := (mgr c)\<lparr>refreshPromise := None\<rparr>,
                       callers := (callers c)[i := Finished (Resolves result)]\<rparr>
                 | Settled Rejects \<Rightarrow> c\<lparr>callers := (callers c)[i := Finished Rejects]\<rparr>
                 | Pending _ \<Rightarrow> c)
              else c)
         | AwaitsJoined p \<Rightarrow>
             (if p < length (promises c) then
                (case promises c ! p of
                   Settled outcome \<Rightarrow> c\<lparr>callers := (callers c)[i := Finished outcome]\<rparr>
                 | Pending _ \<Rightarrow> c)
              else c)
         | Finished _ \<Rightarrow> c)
      else c)"
| "step (Tick d) c = c\<lparr>world := (world c)\<lparr>now := now (world c) + d\<rparr>\<rparr>"

definition exec :: "Step list \<Rightarrow> 't Client \<Rightarrow> 't Client" where
  "exec steps c = foldl (\<lambda>c s. step s c) c steps"

text \<open>A client on which no call of \<open>ensureSession\<close> has been made yet.\<close>

definition new_Client ::
  "HttpConfig \<Rightarrow> PartialSessionConfig \<Rightarrow> 't Payload World \<Rightarrow> 't Client" where
  "new_Client cfg c w =
     \<lparr> http_client = cfg, mgr = new_SessionManager c (now w), world = w,
       promises = [], callers = [] \<rparr>"

text \<open>How a login result settles the promise of \<open>authenticate\<close>.\<close>

definition login_outcome :: "('t Payload option, PiholeError) Result \<Rightarrow> bool Settled" where
  "login_outcome result =
     (case result of
        Err _ \<Rightarrow> Resolves False
      | Ok (Some (AuthData _)) \<Rightarrow> Resolves True
      | Ok _ \<Rightarrow> Rejects)"

text \<open>The session is valid and not due for a refresh: \<open>ensureSession\<close> returns true at once.\<close>

definition session_valid :: "'t Client \<Rightarrow> bool" where
  "session_valid c \<longleftrightarrow> hasSession (mgr c) (world c) \<and> \<not> needsRefresh (mgr c) (world c)"

subsection \<open>Vocabulary for the properties of concurrent calls\<close>

text \<open>
  What the login of a client returns when it is the next call of \<open>fetch\<close>: the classified
  answer of the network to it.
\<close>

definition login_result :: "'t Client \<Rightarrow> ('t Payload option, PiholeError) Result" where
  "login_result c =
     attemptOutcome (http_client c) (loginOptions (the (password (mgr c))) None) None
       (world c) 0"

text \<open>
  The states of a client \<open>c\<close> after the steps of a schedule, relative to the client \<open>c0\<close>
  at its start: before the first call; after \<open>n\<close> calls, all waiting for the promise 0;
  and after the promise has settled with \<open>v\<close>, when the callers in \<open>R\<close> have gone on and
  \<open>k\<close> login requests have been issued.
\<close>

definition untouched :: "'t Client \<Rightarrow> 't Client \<Rightarrow> bool" where
  "untouched c0 c \<longleftrightarrow>
     promises c = [] \<and> callers c = [] \<and> refreshPromise (mgr c) = None \<and>
     \<not> session_valid c \<and> http_client c = http_client c0 \<and>
     password (mgr c) = password (mgr c0) \<and>
     net (world c) = net (world c0) \<and> trace (world c) = trace (world c0)"

definition sharing :: "'t Client \<Rightarrow> nat \<Rightarrow> 't Client \<Rightarrow> bool" where
  "sharing c0 n c \<longleftrightarrow>
     promises c = [Pending (login_result c0)] \<and>
     callers c = AwaitsCreated 0 # replicate (n - 1) (AwaitsJoined 0) \<and>
     refreshPromise (mgr c) = Some 0 \<and>
     \<not> session_valid c \<and>
     attempts_made (world c0) (world c) = 1"

definition pre_settle :: "'t Client \<Rightarrow> nat \<Rightarrow> 't Client \<Rightarrow> bool" where
  "pre_settle c0 n c = (if n = 0 then untouched c0 c else sharing c0 n c)"

definition finishing ::
  "bool Settled \<Rightarrow> nat \<Rightarrow> 't Client \<Rightarrow> nat \<Rightarrow> nat set \<Rightarrow> 't Client \<Rightarrow> bool" where
  "finishing v k c0 n R c \<longleftrightarrow>
     promises c = [Settled v] \<and>
     length (callers c) = n \<and>
     (\<forall>i<n. callers c ! i =
        (if i \<in> R then Finished v
         else if i = 0 then AwaitsCreated 0 else AwaitsJoined 0)) \<and>
     refreshPromise (mgr c) = (if 0 \<in> R \<and> v \<noteq> Rejects then None else Some 0) \<and>
     attempts_made (world c0) (world c) = k"

text \<open>
  The same states on a client without a password: after \<open>n\<close> calls, all waiting for the
  promise 0, which \<open>authenticate\<close> has resolved with false without any login request.
\<close>

definition refused :: "'t Client \<Rightarrow> nat \<Rightarrow> 't Client \<Rightarrow> bool" where
  "refused c0 n c \<longleftrightarrow>
     promises c = [Settled (Resolves False)] \<and>
     callers c = AwaitsCreated 0 # replicate (n - 1) (AwaitsJoined 0) \<and>
     refreshPromise (mgr c) = Some 0 \<and>
     \<not> session_valid c \<and>
     attempts_made (world c0) (world c) = 0"

definition pre_refused :: "'t Client \<Rightarrow> nat \<Rightarrow> 't Client \<Rightarrow> bool" where
  "pre_refused c0 n c = (if n = 0 then untouched c0 c else refused c0 n c)"

section \<open>Scenarios\<close>

text \<open>Concrete configurations, descriptors and networks, on which the properties are run.\<close>

definition pihole_config :: HttpConfig where
  "pihole_config = DEFAULT_HTTP_CONFIG\<lparr>baseUrl := ''http://pi.hole''\<rparr>"

definition negative_retries_config :: HttpConfig where
  "negative_retries_config = pihole_config\<lparr>maxRetries := - 2\<rparr>"

definition get_options :: HttpRequestOptions where
  "get_options =
     \<lparr> method = GET, path = ''/api/x'', body = None, headers = None,
       HttpRequestOptions.timeout = None, noRetry = None \<rparr>"

definition no_retry_options :: HttpRequestOptions where
  "no_retry_options = get_options\<lparr>noRetry := Some True\<rparr>"

text \<open>A network that answers 503 three times and 200 from then on.\<close>

definition flaky_world :: "unit World" where
  "flaky_world =
     \<lparr> now = 0,
       net = (\<lambda>n c. (5, if n < 3 then Responds \<lparr>Response.status = 503, json = NotJson\<rparr>
                         else Responds \<lparr>Response.status = 200, json = Json () None\<rparr>)),
       trace = [] \<rparr>"

text \<open>A network that always answers 503.\<close>

definition unavailable_world :: "unit World" where
  "unavailable_world =
     \<lparr> now = 0,
       net = (\<lambda>n c. (5, Responds \<lparr>Response.status = 503, json = NotJson\<rparr>)),
       trace = [] \<rparr>"

text \<open>A network that always answers 404.\<close>

definition not_found_world :: "unit World" where
  "not_found_world =
     \<lparr> now = 0,
       net = (\<lambda>n c. (5, Responds \<lparr>Response.status = 404, json = NotJson\<rparr>)),
       trace = [] \<rparr>"

text \<open>A manager built with a password only, and one built with a session as well.\<close>

definition password_manager :: "bool Settled SessionManager" where
  "password_manager =
     new_SessionManager
       \<lparr> PartialSessionConfig.password = Some ''x'', PartialSessionConfig.sid = None,
         PartialSessionConfig.csrf = None, PartialSessionConfig.autoRefresh = None,
         PartialSessionConfig.refreshThreshold = None \<rparr> 0"

definition established_manager :: "bool Settled SessionManager" where
  "established_manager =
     new_SessionManager
       \<lparr> PartialSessionConfig.password = Some ''x'', PartialSessionConfig.sid = Some ''s0'',
         PartialSessionConfig.csrf = Some ''c0'', PartialSessionConfig.autoRefresh = None,
         PartialSessionConfig.refreshThreshold = None \<rparr> 0"

text \<open>Backends: one that asks for a TOTP code, one that fails, one that always answers 401.\<close>

definition totp_world :: "unit Payload World" where
  "totp_world =
     \<lparr> now = 0,
       net = (\<lambda>n c. (5, Responds
                \<lparr>Response.status = 401,
                   json = Json (OtherData ())
                            (Some (ErrorInfo (Some ''totp_required'') None None))\<rparr>)),
       trace = [] \<rparr>"

definition server_error_world :: "unit Payload World" where
  "server_error_world =
     \<lparr> now = 0,
       net = (\<lambda>n c. (5, Responds \<lparr>Response.status = 500, json = NotJson\<rparr>)),
       trace = [] \<rparr>"

definition unauthorized_world :: "unit Payload World" where
  "unauthorized_world =
     \<lparr> now = 0,
       net = (\<lambda>n c. (5, Responds \<lparr>Response.status = 401, json = NotJson\<rparr>)),
       trace = [] \<rparr>"

text \<open>
  A backend that accepts every login (the first with session \<open>s1\<close>, the later ones with
  session \<open>s2\<close>) and answers 401 to everything else.
\<close>

definition auth_body :: "string \<Rightarrow> string \<Rightarrow> unit Payload JsonBody" where
  "auth_body s c =
     Json (AuthData \<lparr>session = \<lparr>valid = True, Session.sid = s, Session.csrf = c,
                                  validity = 300, totp = False\<rparr>\<rparr>) None"

definition stubborn_world :: "unit Payload World" where
  "stubborn_world =
     \<lparr> now = 0,
       net = (\<lambda>n c.
                (5, if fetch_method c = POST \<and> url c = ''http://pi.hole/api/auth''
                    then Responds \<lparr>Response.status = 200,
                                   json = (if n = 0 then auth_body ''s1'' ''c1''
                                           else auth_body ''s2'' ''c2'')\<rparr>
                    else Responds \<lparr>Response.status = 401, json = NotJson\<rparr>)),
       trace = [] \<rparr>"

text \<open>A backend that accepts the first login only and answers 401 to everything else.\<close>

definition locked_world :: "unit Payload World" where
  "locked_world =
     \<lparr> now = 0,
       net = (\<lambda>n c.
                (5, if n = 0
                    then Responds \<lparr>Response.status = 200, json = auth_body ''s1'' ''c1''\<rparr>
                    else Responds \<lparr>Response.status = 401, json = NotJson\<rparr>)),
       trace = [] \<rparr>"


text \<open>Clients: one with a password, one without.\<close>

definition password_client :: "unit Client" where
  "password_client =
     new_Client pihole_config
       \<lparr> PartialSessionConfig.password = Some ''x'', PartialSessionConfig.sid = None,
         PartialSessionConfig.csrf = None, PartialSessionConfig.autoRefresh = None,
         PartialSessionConfig.refreshThreshold = None \<rparr>
       stubborn_world"

definition anonymous_client :: "unit Client" where
  "anonymous_client =
     new_Client pihole_config
       \<lparr> PartialSessionConfig.password = None, PartialSessionConfig.sid = None,
         PartialSessionConfig.csrf = None, PartialSessionConfig.autoRefresh = None,
         PartialSessionConfig.refreshThreshold = None \<rparr>
       stubborn_world"

text \<open>A backend that answers every call with 204, and a client with a password on it.\<close>

definition no_content_world :: "unit Payload World" where
  "no_content_world =
     \<lparr> now = 0,
       net = (\<lambda>n c. (5, Responds \<lparr>Response.status = 204, json = NotJson\<rparr>)),
       trace = [] \<rparr>"

definition no_content_client :: "unit Client" where
  "no_content_client =
     new_Client pihole_config
       \<lparr> PartialSessionConfig.password = Some ''x'', PartialSessionConfig.sid = None,
         PartialSessionConfig.csrf = None, PartialSessionConfig.autoRefresh = None,
         PartialSessionConfig.refreshThreshold = None \<rparr>
       no_content_world"

section \<open>Properties\<close>

subsection \<open>Error classification of a non-2xx response\<close>

text \<open>
  Claim C6, as amended. A response whose status is outside 200..299 is turned into the
  error built by \<open>parseErrorResponse\<close>. When the parsed error body supplies a non-empty
  key, the code is the one the key table gives (whatever the status is); when it supplies
  no key, or the empty string as key, the code is the one the status table gives. The key
  table and the status table are the ones of the specification.
\<close>

theorem error_classification:
  "(\<not> response_ok r \<longrightarrow> handleResponse r = Err (parseErrorResponse r)) \<and>
   (\<forall>k. responseKey r = Some k \<and> k \<noteq> [] \<longrightarrow>
        code (parseErrorResponse r) = apiKeyToErrorCode k) \<and>
   (responseKey r = None \<or> responseKey r = Some [] \<longrightarrow>
        code (parseErrorResponse r) = statusToErrorCode (Response.status r)) \<and>
   apiKeyToErrorCode ''unauthorized'' = Unauthorized \<and>
   apiKeyToErrorCode ''auth_failed'' = Unauthorized \<and>
   apiKeyToErrorCode ''totp_required'' = TotpRequired \<and>
   apiKeyToErrorCode ''bad_totp'' = InvalidTotp \<and>
   apiKeyToErrorCode ''session_expired'' = SessionExpired \<and>
   apiKeyToErrorCode ''not_found'' = NotFound \<and>
   apiKeyToErrorCode ''conflict'' = Conflict \<and>
   apiKeyToErrorCode ''bad_request'' = BadRequest \<and>
   (\<forall>k. k \<notin> {''unauthorized'', ''auth_failed'', ''totp_required'', ''bad_totp'',
              ''session_expired'', ''not_found'', ''conflict'', ''bad_request''} \<longrightarrow>
        apiKeyToErrorCode k = Unknown) \<and>
   statusToErrorCode 400 = BadRequest \<and>
   statusToErrorCode 401 = Unauthorized \<and>
   statusToErrorCode 403 = Unauthorized \<and>
   statusToErrorCode 404 = NotFound \<and>
   statusToErrorCode 409 = Conflict \<and>
   statusToErrorCode 422 = ValidationError \<and>
   statusToErrorCode 500 = ServerError \<and>
   statusToErrorCode 502 = ServiceUnavailable \<and>
   statusToErrorCode 503 = ServiceUnavailable \<and>
   statusToErrorCode 504 = ServiceUnavailable \<and>
   (\<forall>s. 400 \<le> s \<and> s < 500 \<and> s \<notin> {400, 401, 403, 404, 409, 422} \<longrightarrow>
        statusToErrorCode s = BadRequest) \<and>
   (\<forall>s. 500 \<le> s \<and> s < 600 \<and> s \<notin> {500, 502, 503, 504} \<longrightarrow>
        statusToErrorCode s = ServerError)"
proof -
  have resp: "\<not> response_ok r \<longrightarrow> handleResponse r = Err (parseErrorResponse r)"
    by (simp add: handleResponse_def)
  have keyed: "\<forall>k. responseKey r = Some k \<and> k \<noteq> [] \<longrightarrow>
        code (parseErrorResponse r) = apiKeyToErrorCode k"
    by (auto simp add: responseKey_def parseErrorResponse_def createError_def Let_def
        split: JsonBody.splits option.splits)
  have unkeyed: "responseKey r = None \<or> responseKey r = Some [] \<longrightarrow>
        code (parseErrorResponse r) = statusToErrorCode (Response.status r)"
    by (auto simp add: responseKey_def parseErrorResponse_def createError_def Let_def
        split: JsonBody.splits option.splits)
  have keys: "apiKeyToErrorCode ''unauthorized'' = Unauthorized"
    "apiKeyToErrorCode ''auth_failed'' = Unauthorized"
    "apiKeyToErrorCode ''totp_required'' = TotpRequired"
    "apiKeyToErrorCode ''bad_totp'' = InvalidTotp"
    "apiKeyToErrorCode ''session_expired'' = SessionExpired"
    "apiKeyToErrorCode ''not_found'' = NotFound"
    "apiKeyToErrorCode ''conflict'' = Conflict"
    "apiKeyToErrorCode ''bad_request'' = BadRequest"
    by (simp_all add: apiKeyToErrorCode_def)
  have other_key: "\<forall>k. k \<notin> {''unauthorized'', ''auth_failed'', ''totp_required'', ''bad_totp'',
              ''session_expired'', ''not_found'', ''conflict'', ''bad_request''} \<longrightarrow>
        apiKeyToErrorCode k = Unknown"
    by (simp add: apiKeyToErrorCode_def)
  have statuses: "statusToErrorCode 400 = BadRequest"
    "statusToErrorCode 401 = Unauthorized"
    "statusToErrorCode 403 = Unauthorized"
    "statusToErrorCode 404 = NotFound"
    "statusToErrorCode 409 = Conflict"
    "statusToErrorCode 422 = ValidationError"
    "statusToErrorCode 500 = ServerError"
    "statusToErrorCode 502 = ServiceUnavailable"
    "statusToErrorCode 503 = ServiceUnavailable"
    "statusToErrorCode 504 = ServiceUnavailable"
    by (simp_all add: statusToErrorCode_def)
  have other4: "\<forall>s. 400 \<le> s \<and> s < 500 \<and> s \<notin> {400, 401, 403, 404, 409, 422} \<longrightarrow>
        statusToErrorCode s = BadRequest"
    by (simp add: statusToErrorCode_def)
  have other5: "\<forall>s. 500 \<le> s \<and> s < 600 \<and> s \<notin> {500, 502, 503, 504} \<longrightarrow>
        statusToErrorCode s = ServerError"
    by (simp add: statusToErrorCode_def)
  from resp keyed unkeyed keys other_key statuses other4 other5 show ?thesis
    by blast
qed

text \<open>
  With status 404 and key \<open>totp_required\<close> the key wins; with status 418 and no JSON body
  the status decides; with status 507 and an empty key the status decides.
\<close>

theorem error_classification_witness:
  "code (parseErrorResponse
           \<lparr>Response.status = 404,
              json = Json () (Some (ErrorInfo (Some ''totp_required'') None None))\<rparr>) = TotpRequired \<and>
   code (parseErrorResponse \<lparr>Response.status = 418, json = (NotJson :: unit JsonBody)\<rparr>) = BadRequest \<and>
   code (parseErrorResponse \<lparr>Response.status = 507, json = Json () (Some (ErrorInfo (Some []) None None))\<rparr>) = ServerError \<and>
   apiKeyToErrorCode ''rate_limited'' = Unknown"
  using error_classification
          [of "\<lparr>Response.status = 404,
                  json = Json () (Some (ErrorInfo (Some ''totp_required'') None None))\<rparr>"]
        error_classification [of "\<lparr>Response.status = 418, json = (NotJson :: unit JsonBody)\<rparr>"]
        error_classification [of "\<lparr>Response.status = 507, json = Json () (Some (ErrorInfo (Some []) None None))\<rparr>"]
  by (simp add: responseKey_def)

text \<open>
  Claim C6 as stated fails when the body supplies the empty string as key: the test
  \<open>apiKey ? ... : ...\<close> takes it for absent, so a 404 is classified by its status as
  \<open>NotFound\<close>, where the key table would give \<open>Unknown\<close>.
\<close>

theorem empty_key_counterexample:
  "code (parseErrorResponse
           \<lparr>Response.status = 404,
              json = Json () (Some (ErrorInfo (Some []) None None))\<rparr>) = NotFound \<and>
   apiKeyToErrorCode [] = Unknown"
  by code_simp

subsection \<open>Classification of a thrown value\<close>

text \<open>
  Claim C9, as amended. Every error built from a thrown value has status 0. The tests are
  made in this order: an \<open>Error\<close> named \<open>AbortError\<close> is a \<open>Timeout\<close>; otherwise a message
  that indicates an SSL or certificate problem gives \<open>CertificateError\<close> with the hint to
  accept the certificate; otherwise a message that indicates a refused connection gives
  \<open>ConnectionRefused\<close>; every other \<open>Error\<close> object gives \<open>NetworkError\<close> with its own
  message. The code is \<open>Unknown\<close> exactly when the thrown value is not an \<open>Error\<close> object.
\<close>

theorem handleFetchError_classification:
  "PiholeError.status (handleFetchError x) = 0 \<and>
   code (handleFetchError (ErrorObject ''AbortError'' m)) = Timeout \<and>
   (n \<noteq> ''AbortError'' \<and> indicates_certificate m \<longrightarrow>
      code (handleFetchError (ErrorObject n m)) = CertificateError \<and>
      hint (handleFetchError (ErrorObject n m)) =
        Some ''Accept the certificate in your browser first'') \<and>
   (n \<noteq> ''AbortError'' \<and> \<not> indicates_certificate m \<and> indicates_refused m \<longrightarrow>
      code (handleFetchError (ErrorObject n m)) = ConnectionRefused) \<and>
   (n \<noteq> ''AbortError'' \<and> \<not> indicates_certificate m \<and> \<not> indicates_refused m \<longrightarrow>
      code (handleFetchError (ErrorObject n m)) = NetworkError \<and>
      message (handleFetchError (ErrorObject n m)) = m) \<and>
   (code (handleFetchError x) = Unknown \<longleftrightarrow> x = NonError)"
proof -
  have st: "PiholeError.status (handleFetchError x) = 0"
    by (cases x) (simp_all add: handleFetchError_def createError_def Let_def)
  have unk: "code (handleFetchError x) = Unknown \<longleftrightarrow> x = NonError"
    by (cases x) (simp_all add: handleFetchError_def createError_def Let_def)
  have rest: "code (handleFetchError (ErrorObject ''AbortError'' m)) = Timeout \<and>
   (n \<noteq> ''AbortError'' \<and> indicates_certificate m \<longrightarrow>
      code (handleFetchError (ErrorObject n m)) = CertificateError \<and>
      hint (handleFetchError (ErrorObject n m)) =
        Some ''Accept the certificate in your browser first'') \<and>
   (n \<noteq> ''AbortError'' \<and> \<not> indicates_certificate m \<and> indicates_refused m \<longrightarrow>
      code (handleFetchError (ErrorObject n m)) = ConnectionRefused) \<and>
   (n \<noteq> ''AbortError'' \<and> \<not> indicates_certificate m \<and> \<not> indicates_refused m \<longrightarrow>
      code (handleFetchError (ErrorObject n m)) = NetworkError \<and>
      message (handleFetchError (ErrorObject n m)) = m)"
    unfolding indicates_certificate_def indicates_refused_def
    by (simp add: handleFetchError_def createError_def Let_def)
  from st unk rest show ?thesis by simp
qed

text \<open>One thrown value for each branch.\<close>

theorem handleFetchError_classification_witness:
  "code (handleFetchError (ErrorObject ''AbortError'' ''aborted'')) = Timeout \<and>
   code (handleFetchError (ErrorObject ''Error'' ''SSL handshake failed'')) = CertificateError \<and>
   code (handleFetchError (ErrorObject ''Error'' ''connect ECONNREFUSED'')) = ConnectionRefused \<and>
   code (handleFetchError (ErrorObject ''TypeError'' ''Failed to fetch'')) = NetworkError \<and>
   code (handleFetchError NonError) = Unknown"
proof -
  have n: "''Error'' \<noteq> ''AbortError''" "''TypeError'' \<noteq> ''AbortError''"
    by simp_all
  have c1: "indicates_certificate ''SSL handshake failed''"
    by code_simp
  have c2: "\<not> indicates_certificate ''connect ECONNREFUSED''"
    by code_simp
  have r2: "indicates_refused ''connect ECONNREFUSED''"
    by code_simp
  have c3: "\<not> indicates_certificate ''Failed to fetch''"
    by code_simp
  have r3: "\<not> indicates_refused ''Failed to fetch''"
    by code_simp
  from handleFetchError_classification [of NonError "''aborted''" "''Error''"]
  have 1: "code (handleFetchError (ErrorObject ''AbortError'' ''aborted'')) = Timeout"
    and 5: "code (handleFetchError NonError) = Unknown"
    by simp_all
  from handleFetchError_classification [of NonError "''SSL handshake failed''" "''Error''"] n c1
  have 2: "code (handleFetchError (ErrorObject ''Error'' ''SSL handshake failed'')) = CertificateError"
    by simp
  from handleFetchError_classification [of NonError "''connect ECONNREFUSED''" "''Error''"] n c2 r2
  have 3: "code (handleFetchError (ErrorObject ''Error'' ''connect ECONNREFUSED'')) = ConnectionRefused"
    by simp
  from handleFetchError_classification [of NonError "''Failed to fetch''" "''TypeError''"] n c3 r3
  have 4: "code (handleFetchError (ErrorObject ''TypeError'' ''Failed to fetch'')) = NetworkError"
    by simp
  from 1 2 3 4 5 show ?thesis by simp
qed

text \<open>
  Claim C9 as stated fails: a message that indicates a refused connection and also
  mentions SSL is not classified as \<open>ConnectionRefused\<close>, and an \<open>Error\<close> that no test
  recognises is not classified as \<open>Unknown\<close>.
\<close>

theorem handleFetchError_counterexample:
  "indicates_refused ''connection refused by SSL proxy'' \<and>
   code (handleFetchError (ErrorObject ''Error'' ''connection refused by SSL proxy'')) \<noteq> ConnectionRefused \<and>
   code (handleFetchError (ErrorObject ''TypeError'' ''Converting circular structure to JSON'')) \<noteq> Unknown"
  by code_simp

subsection \<open>Statuses below 400\<close>

text \<open>
  Claim C10. \<open>statusToErrorCode\<close> is a total function, and every status below 400 falls
  through its table to the default branch, which gives \<open>ServerError\<close> (not \<open>BadRequest\<close>,
  not \<open>Unknown\<close>). Such a status is reachable: a response with a status below 400 that
  is not in 200..299, and whose body supplies no key, is classified as \<open>ServerError\<close> by
  \<open>handleResponse\<close>.
\<close>

theorem statusToErrorCode_below_400:
  assumes "s < 400"
  shows "statusToErrorCode s = ServerError \<and>
         statusToErrorCode s \<noteq> BadRequest \<and> statusToErrorCode s \<noteq> Unknown \<and>
         (s < 200 \<or> 299 < s \<longrightarrow>
            (\<forall>b. handleResponse \<lparr>Response.status = s, json = Json b None\<rparr> =
               (Err (createError ServerError (''HTTP '' @ show_status s) s
                      (Some (ErrorOptions None None)))
                 :: ('a option, PiholeError) Result)) \<and>
            handleResponse \<lparr>Response.status = s, json = NotJson\<rparr> =
               (Err (createError ServerError (''HTTP '' @ show_status s) s
                      (Some (ErrorOptions None None)))
                 :: ('a option, PiholeError) Result))"
proof -
  from assms have c: "statusToErrorCode s = ServerError"
    by (simp add: statusToErrorCode_def)
  then have "s < 200 \<or> 299 < s \<longrightarrow>
            (\<forall>b. handleResponse \<lparr>Response.status = s, json = Json b None\<rparr> =
               (Err (createError ServerError (''HTTP '' @ show_status s) s
                      (Some (ErrorOptions None None)))
                 :: ('a option, PiholeError) Result)) \<and>
            handleResponse \<lparr>Response.status = s, json = NotJson\<rparr> =
               (Err (createError ServerError (''HTTP '' @ show_status s) s
                      (Some (ErrorOptions None None)))
                 :: ('a option, PiholeError) Result)"
    by (auto simp add: handleResponse_def response_ok_def parseErrorResponse_def)
  with c show ?thesis by simp
qed

text \<open>Status 0, a 302, and a 304 without a JSON body.\<close>

theorem statusToErrorCode_below_400_witness:
  "statusToErrorCode 0 = ServerError \<and> statusToErrorCode 302 = ServerError \<and>
   handleResponse \<lparr>Response.status = 304, json = NotJson\<rparr> =
     (Err (createError ServerError ''HTTP 304'' 304 (Some (ErrorOptions None None)))
       :: (unit option, PiholeError) Result)"
proof -
  have shown: "show_status 304 = ''304''"
    by (simp add: show_status_def)
  have low: "(0::int) < 400" "(302::int) < 400" "(304::int) < 400" "(299::int) < 304"
    by simp_all
  from statusToErrorCode_below_400 [OF low(1), where 'a = unit]
  have a: "statusToErrorCode 0 = ServerError" by (rule conjunct1)
  from statusToErrorCode_below_400 [OF low(2), where 'a = unit]
  have b: "statusToErrorCode 302 = ServerError" by (rule conjunct1)
  from statusToErrorCode_below_400 [OF low(3), where 'a = unit] low(4)
  have c: "handleResponse \<lparr>Response.status = 304, json = NotJson\<rparr> =
     (Err (createError ServerError (''HTTP '' @ show_status 304) 304
             (Some (ErrorOptions None None)))
       :: (unit option, PiholeError) Result)"
    by blast
  from a b c shown show ?thesis by simp
qed
subsection \<open>The retry loop\<close>

text \<open>How the operations on the world change the counters that the properties read.\<close>

lemma sleeps_of_append [simp]: "sleeps_of (xs @ ys) = sleeps_of xs @ sleeps_of ys"
  by (induction xs rule: sleeps_of.induct) simp_all

lemma log_event_simps [simp]:
  "net (log_event e w) = net w"
  "now (log_event e w) = now w"
  "trace (log_event e w) = trace w @ [e]"
  by (simp_all add: log_event_def)

lemma fetches_log_event [simp]:
  "fetches (log_event e w) = (if is_Fetch e then Suc (fetches w) else fetches w)"
  by (simp add: fetches_def)

lemma fetches_now_update [simp]: "fetches (w\<lparr>now := n\<rparr>) = fetches w"
  by (simp add: fetches_def)

lemma sleeps_now_update [simp]: "sleeps (w\<lparr>now := n\<rparr>) = sleeps w"
  by (simp add: sleeps_def)

lemma sleeps_log_event [simp]:
  "sleeps (log_event e w) = sleeps w @ (case e of Sleep d \<Rightarrow> [d] | _ \<Rightarrow> [])"
  by (cases e) (simp_all add: sleeps_def)

lemma sleep_simps [simp]:
  "net (sleep d w) = net w"
  "fetches (sleep d w) = fetches w"
  "sleeps (sleep d w) = sleeps w @ [d]"
  by (simp_all add: sleep_def)

lemma executeRequest_result:
  "executeRequest cfg options ah tmo w = (r, w1) \<Longrightarrow>
     r = attemptResult (snd (net w (fetches w) (fetchCall cfg options ah tmo))) \<and>
     net w1 = net w \<and> fetches w1 = Suc (fetches w) \<and> sleeps w1 = sleeps w"
  by (auto simp add: executeRequest_def Let_def split: prod.splits)


lemma request_loop_stops:
  assumes "a \<le> k" and "int k < M"
    and "\<And>j. a \<le> j \<Longrightarrow> j < k \<Longrightarrow>
           retryable_failure
             (attemptResult (snd (net w (fetches w + (j - a)) (fetchCall cfg options ah tmo))))"
    and "\<not> retryable_failure
           (attemptResult (snd (net w (fetches w + (k - a)) (fetchCall cfg options ah tmo))))"
  shows "\<exists>w'. request_loop cfg options ah tmo M a lastError w =
            (attemptResult (snd (net w (fetches w + (k - a)) (fetchCall cfg options ah tmo))), w') \<and>
          fetches w' = fetches w + (k - a) + 1 \<and>
          sleeps w' = sleeps w @ map (calculateDelay cfg) [a..<k] \<and>
          net w' = net w"
  using assms
proof (induction "k - a" arbitrary: a w lastError)
  case 0
  then have ak: "a = k" by simp
  obtain r w1 where ex: "executeRequest cfg options ah tmo w = (r, w1)"
    by (cases "executeRequest cfg options ah tmo w")
  note facts = executeRequest_result [OF ex]
  from 0(5) ak facts have nr: "\<not> retryable_failure r" by simp
  from 0(3) ak have lt: "int a < M" by simp
  from nr have "request_loop cfg options ah tmo M a lastError w = (r, w1)"
    by (subst request_loop.simps)
       (auto simp add: ex lt retryable_failure_def split: Result.splits)
  with facts ak show ?case by simp
next
  case (Suc n)
  then have ak: "a < k" by simp
  obtain r w1 where ex: "executeRequest cfg options ah tmo w = (r, w1)"
    by (cases "executeRequest cfg options ah tmo w")
  note facts = executeRequest_result [OF ex]
  from Suc(5) [of a] ak facts have rf: "retryable_failure r" by simp
  then obtain e where r: "r = Err e" and re: "isRetryable (code e)"
    by (auto simp add: retryable_failure_def split: Result.splits)
  from ak Suc(4) have lt: "int a < M" "int a < M - 1" by simp_all
  let ?w2 = "sleep (calculateDelay cfg a) w1"
  have step: "request_loop cfg options ah tmo M a lastError w =
              request_loop cfg options ah tmo M (Suc a) (Some e) ?w2"
    by (subst request_loop.simps) (simp add: ex lt r re)
  have f2: "fetches ?w2 = Suc (fetches w)" "net ?w2 = net w"
    "sleeps ?w2 = sleeps w @ [calculateDelay cfg a]"
    using facts by simp_all
  have idx: "\<And>j. Suc a \<le> j \<Longrightarrow> fetches ?w2 + (j - Suc a) = fetches w + (j - a)"
    using f2 by simp
  have "\<exists>w'. request_loop cfg options ah tmo M (Suc a) (Some e) ?w2 =
            (attemptResult (snd (net ?w2 (fetches ?w2 + (k - Suc a)) (fetchCall cfg options ah tmo))), w') \<and>
          fetches w' = fetches ?w2 + (k - Suc a) + 1 \<and>
          sleeps w' = sleeps ?w2 @ map (calculateDelay cfg) [Suc a..<k] \<and>
          net w' = net ?w2"
  proof (rule Suc(1))
    show "n = k - Suc a" using Suc(2) by simp
    show "Suc a \<le> k" using ak by simp
    show "int k < M" by (rule Suc(4))
    show "retryable_failure
           (attemptResult (snd (net ?w2 (fetches ?w2 + (j - Suc a)) (fetchCall cfg options ah tmo))))"
      if "Suc a \<le> j" "j < k" for j
      using Suc(5) [of j] that idx [of j] f2(2) by simp
    show "\<not> retryable_failure
           (attemptResult (snd (net ?w2 (fetches ?w2 + (k - Suc a)) (fetchCall cfg options ah tmo))))"
      using Suc(6) idx [of k] ak f2(2) by simp
  qed
  then obtain w' where w':
    "request_loop cfg options ah tmo M (Suc a) (Some e) ?w2 =
       (attemptResult (snd (net ?w2 (fetches ?w2 + (k - Suc a)) (fetchCall cfg options ah tmo))), w')"
    "fetches w' = fetches ?w2 + (k - Suc a) + 1"
    "sleeps w' = sleeps ?w2 @ map (calculateDelay cfg) [Suc a..<k]"
    "net w' = net ?w2"
    by blast
  have upt: "[a..<k] = a # [Suc a..<k]"
    using ak by (simp add: upt_conv_Cons)
  show ?case
    using step w' f2 idx [of k] ak upt by simp
qed


lemma request_loop_exit:
  "\<not> int a < M \<Longrightarrow>
     request_loop cfg options ah tmo M a lastError w =
       (Err (case lastError of
               Some e \<Rightarrow> e
             | None \<Rightarrow> createError Unknown ''Request failed'' 0 None), w)"
  by (subst request_loop.simps) simp

lemma request_loop_trace:
  "request_loop cfg options ah tmo M a lastError w = (r, w') \<Longrightarrow>
     net w' = net w \<and>
     fetches w' \<le> fetches w + nat (M - int a) \<and>
     (int a < M \<longrightarrow> fetches w < fetches w') \<and>
     fetches w \<le> fetches w' \<and>
     sleeps w' = sleeps w @ map (calculateDelay cfg) [a..<a + (fetches w' - fetches w) - 1]"
proof (induction "nat (M - int a)" arbitrary: a w lastError)
  case 0
  then have ge: "\<not> int a < M" by simp
  have "request_loop cfg options ah tmo M a lastError w =
          (Err (case lastError of
                  Some e \<Rightarrow> e
                | None \<Rightarrow> createError Unknown ''Request failed'' 0 None), w)"
    using ge by (rule request_loop_exit)
  with 0(2) have "w' = w" by simp
  with ge show ?case by simp
next
  case (Suc n)
  then have lt: "int a < M" by simp
  obtain r1 w1 where ex: "executeRequest cfg options ah tmo w = (r1, w1)"
    by (cases "executeRequest cfg options ah tmo w")
  note facts = executeRequest_result [OF ex]
  show ?case
  proof (cases "retryable_failure r1")
    case False
    then have "request_loop cfg options ah tmo M a lastError w = (r1, w1)"
      by (subst request_loop.simps)
         (auto simp add: ex lt retryable_failure_def split: Result.splits)
    with Suc(3) have "w' = w1" by simp
    with facts lt show ?thesis by simp
  next
    case True
    then obtain e where r1: "r1 = Err e" and re: "isRetryable (code e)"
      by (auto simp add: retryable_failure_def split: Result.splits)
    let ?w2 = "if int a < M - 1 then sleep (calculateDelay cfg a) w1 else w1"
    have step: "request_loop cfg options ah tmo M a lastError w =
                request_loop cfg options ah tmo M (Suc a) (Some e) ?w2"
      by (subst request_loop.simps) (simp add: ex lt r1 re)
    with Suc(3) have rec: "request_loop cfg options ah tmo M (Suc a) (Some e) ?w2 = (r, w')"
      by simp
    have n: "n = nat (M - int (Suc a))" using Suc(2) by simp
    note ih = Suc(1) [OF n rec]
    have f2: "fetches ?w2 = Suc (fetches w)" "net ?w2 = net w"
      using facts by simp_all
    show ?thesis
    proof (cases "int a < M - 1")
      case True
      then have s2: "sleeps ?w2 = sleeps w @ [calculateDelay cfg a]"
        using facts by simp
      from True have "int (Suc a) < M" by simp
      with ih f2 have more: "Suc (fetches w) < fetches w'" by simp
      then have upt: "[a..<a + (fetches w' - fetches w) - 1] =
                      a # [Suc a..<Suc a + (fetches w' - Suc (fetches w)) - 1]"
        by (simp add: upt_conv_Cons)
      have bound: "fetches w' \<le> fetches w + nat (M - int a)"
        using ih f2 lt by (simp only: ) linarith
      have sl: "sleeps w' =
                sleeps w @ map (calculateDelay cfg) [a..<a + (fetches w' - fetches w) - 1]"
        using ih f2 s2 upt by simp
      from ih f2 more bound sl show ?thesis by simp
    next
      case False
      then have s2: "sleeps ?w2 = sleeps w" using facts by simp
      from False lt have "nat (M - int (Suc a)) = 0" by simp
      with ih f2 have same: "fetches w' = Suc (fetches w)" by simp
      from ih f2 s2 same lt show ?thesis by simp
    qed
  qed
qed

lemma request_loop_exhausts:
  assumes "int a < M"
    and "\<And>j. a \<le> j \<Longrightarrow> int j < M \<Longrightarrow>
           retryable_failure
             (attemptResult (snd (net w (fetches w + (j - a)) (fetchCall cfg options ah tmo))))"
  shows "\<exists>w'. request_loop cfg options ah tmo M a lastError w =
            (attemptResult (snd (net w (fetches w + (nat M - 1 - a)) (fetchCall cfg options ah tmo))), w') \<and>
          fetches w' = fetches w + (nat M - a)"
  using assms
proof (induction "nat M - 1 - a" arbitrary: a w lastError)
  case 0
  then have a: "a = nat M - 1" "\<not> int a < M - 1" "\<not> int (Suc a) < M" by auto
  obtain r w1 where ex: "executeRequest cfg options ah tmo w = (r, w1)"
    by (cases "executeRequest cfg options ah tmo w")
  note facts = executeRequest_result [OF ex]
  from 0(3) [of a] 0(2) facts have rf: "retryable_failure r" by simp
  then obtain e where r: "r = Err e" and re: "isRetryable (code e)"
    by (auto simp add: retryable_failure_def split: Result.splits)
  have "request_loop cfg options ah tmo M a lastError w =
        request_loop cfg options ah tmo M (Suc a) (Some e) w1"
    by (subst request_loop.simps) (simp add: ex 0(2) a(2) r re)
  also have "\<dots> = (Err e, w1)"
    by (simp add: request_loop_exit [OF a(3)])
  finally show ?case
    using facts r a 0(2) by auto
next
  case (Suc n)
  then have lt: "int a < M - 1" "int (Suc a) < M" by auto
  obtain r w1 where ex: "executeRequest cfg options ah tmo w = (r, w1)"
    by (cases "executeRequest cfg options ah tmo w")
  note facts = executeRequest_result [OF ex]
  from Suc(4) [of a] Suc(3) facts have rf: "retryable_failure r" by simp
  then obtain e where r: "r = Err e" and re: "isRetryable (code e)"
    by (auto simp add: retryable_failure_def split: Result.splits)
  let ?w2 = "sleep (calculateDelay cfg a) w1"
  have step: "request_loop cfg options ah tmo M a lastError w =
              request_loop cfg options ah tmo M (Suc a) (Some e) ?w2"
    by (subst request_loop.simps) (simp add: ex Suc(3) lt r re)
  have f2: "fetches ?w2 = Suc (fetches w)" "net ?w2 = net w"
    using facts by simp_all
  have idx: "\<And>j. Suc a \<le> j \<Longrightarrow> fetches ?w2 + (j - Suc a) = fetches w + (j - a)"
    using f2 by simp
  have "\<exists>w'. request_loop cfg options ah tmo M (Suc a) (Some e) ?w2 =
            (attemptResult (snd (net ?w2 (fetches ?w2 + (nat M - 1 - Suc a)) (fetchCall cfg options ah tmo))), w') \<and>
          fetches w' = fetches ?w2 + (nat M - Suc a)"
  proof (rule Suc(1))
    show "n = nat M - 1 - Suc a" using Suc(2) by simp
    show "int (Suc a) < M" by (rule lt(2))
    show "retryable_failure
           (attemptResult (snd (net ?w2 (fetches ?w2 + (j - Suc a)) (fetchCall cfg options ah tmo))))"
      if "Suc a \<le> j" "int j < M" for j
      using Suc(4) [of j] that idx [of j] f2(2) by simp
  qed
  then obtain w' where w':
    "request_loop cfg options ah tmo M (Suc a) (Some e) ?w2 =
       (attemptResult (snd (net ?w2 (fetches ?w2 + (nat M - 1 - Suc a)) (fetchCall cfg options ah tmo))), w')"
    "fetches w' = fetches ?w2 + (nat M - Suc a)"
    by blast
  have le: "Suc a \<le> nat M - 1" using lt by simp
  show ?case
    using step w' f2 idx [OF le] lt by simp
qed


lemma request_unfold:
  "baseUrl cfg \<noteq> [] \<Longrightarrow>
     request cfg options ah w =
       request_loop cfg options ah
         (case HttpRequestOptions.timeout options of Some t \<Rightarrow> t | None \<Rightarrow> HttpConfig.timeout cfg)
         (maxAttemptsOf cfg options) 0 None (log_event (Request options ah) w)"
  by (simp add: request_def maxAttemptsOf_def Let_def)

lemma request_no_baseUrl:
  "baseUrl cfg = [] \<Longrightarrow>
     request cfg options ah w =
       (Err (createError BadRequest ''Base URL not configured'' 0 None),
        log_event (Request options ah) w)"
  by (simp add: request_def Let_def)

lemma request_stops:
  assumes "baseUrl cfg \<noteq> []" and "request cfg options ah w = (r, w')"
    and "int k < maxAttemptsOf cfg options"
    and "\<forall>j<k. retryable_failure (attemptOutcome cfg options ah w j)"
    and "\<not> retryable_failure (attemptOutcome cfg options ah w k)"
  shows "r = attemptOutcome cfg options ah w k \<and> attempts_made w w' = k + 1"
proof -
  let ?w0 = "log_event (Request options ah) w"
  let ?tmo = "case HttpRequestOptions.timeout options of Some t \<Rightarrow> t | None \<Rightarrow> HttpConfig.timeout cfg"
  have w0: "fetches ?w0 = fetches w" "net ?w0 = net w" by simp_all
  have "\<exists>w''. request_loop cfg options ah ?tmo (maxAttemptsOf cfg options) 0 None ?w0 =
            (attemptResult (snd (net ?w0 (fetches ?w0 + (k - 0)) (fetchCall cfg options ah ?tmo))), w'') \<and>
          fetches w'' = fetches ?w0 + (k - 0) + 1 \<and>
          sleeps w'' = sleeps ?w0 @ map (calculateDelay cfg) [0..<k] \<and>
          net w'' = net ?w0"
  proof (rule request_loop_stops)
    show "0 \<le> k" by simp
    show "int k < maxAttemptsOf cfg options" by fact
    show "retryable_failure
           (attemptResult (snd (net ?w0 (fetches ?w0 + (j - 0)) (fetchCall cfg options ah ?tmo))))"
      if "0 \<le> j" "j < k" for j
      using assms(4) that by (simp add: attemptOutcome_def requestCall_def)
    show "\<not> retryable_failure
           (attemptResult (snd (net ?w0 (fetches ?w0 + (k - 0)) (fetchCall cfg options ah ?tmo))))"
      using assms(5) by (simp add: attemptOutcome_def requestCall_def)
  qed
  with assms(1,2) show ?thesis
    by (auto simp add: request_unfold attemptOutcome_def requestCall_def attempts_made_def)
qed

lemma request_exhausts:
  assumes "baseUrl cfg \<noteq> []" and "request cfg options ah w = (r, w')"
    and "0 < maxAttemptsOf cfg options"
    and "\<forall>j. int j < maxAttemptsOf cfg options \<longrightarrow>
           retryable_failure (attemptOutcome cfg options ah w j)"
  shows "r = attemptOutcome cfg options ah w (nat (maxAttemptsOf cfg options) - 1) \<and>
         attempts_made w w' = nat (maxAttemptsOf cfg options)"
proof -
  let ?w0 = "log_event (Request options ah) w"
  let ?tmo = "case HttpRequestOptions.timeout options of Some t \<Rightarrow> t | None \<Rightarrow> HttpConfig.timeout cfg"
  let ?M = "maxAttemptsOf cfg options"
  have "\<exists>w''. request_loop cfg options ah ?tmo ?M 0 None ?w0 =
            (attemptResult (snd (net ?w0 (fetches ?w0 + (nat ?M - 1 - 0)) (fetchCall cfg options ah ?tmo))), w'') \<and>
          fetches w'' = fetches ?w0 + (nat ?M - 0)"
  proof (rule request_loop_exhausts)
    show "int 0 < ?M" using assms(3) by simp
    show "retryable_failure
           (attemptResult (snd (net ?w0 (fetches ?w0 + (j - 0)) (fetchCall cfg options ah ?tmo))))"
      if "0 \<le> j" "int j < ?M" for j
      using assms(4) that by (simp add: attemptOutcome_def requestCall_def)
  qed
  with assms(1,2) show ?thesis
    by (auto simp add: request_unfold attemptOutcome_def requestCall_def attempts_made_def)
qed

lemma request_trace:
  assumes "request cfg options ah w = (r, w')"
  shows "net w' = net w \<and>
         int (attempts_made w w') \<le> max 0 (maxAttemptsOf cfg options) \<and>
         fetches w \<le> fetches w' \<and>
         sleeps w' = sleeps w @ map (calculateDelay cfg) [0..<attempts_made w w' - 1]"
proof (cases "baseUrl cfg = []")
  case True
  with assms show ?thesis
    by (auto simp add: request_no_baseUrl attempts_made_def)
next
  case False
  let ?w0 = "log_event (Request options ah) w"
  let ?tmo = "case HttpRequestOptions.timeout options of Some t \<Rightarrow> t | None \<Rightarrow> HttpConfig.timeout cfg"
  from False assms
  have "request_loop cfg options ah ?tmo (maxAttemptsOf cfg options) 0 None ?w0 = (r, w')"
    by (simp add: request_unfold)
  from request_loop_trace [OF this]
  have t: "net w' = net w" "fetches w' \<le> fetches w + nat (maxAttemptsOf cfg options)"
    "fetches w \<le> fetches w'"
    "sleeps w' = sleeps w @ map (calculateDelay cfg) [0..<fetches w' - fetches w - 1]"
    by simp_all
  from t(2,3) have "int (fetches w' - fetches w) \<le> max 0 (maxAttemptsOf cfg options)"
    by linarith
  with t show ?thesis
    by (simp add: attempts_made_def)
qed

subsection \<open>Retry policy\<close>

text \<open>
  Claim C1, as amended. Let the base URL be configured (non-empty). A descriptor with
  \<open>noRetry\<close> set makes exactly one attempt. When \<open>maxRetries\<close> is not negative, at most
  \<open>maxRetries + 1\<close> attempts are made. If the attempts before attempt \<open>k\<close> fail with
  retryable errors and attempt \<open>k\<close>, within the budget, succeeds or fails with an error that
  is not retryable, then the outcome of attempt \<open>k\<close> is returned after exactly \<open>k + 1\<close>
  attempts. If the budget is positive and every attempt in it fails with a retryable
  error, the failure of the last attempt is returned and the whole budget is used. In
  particular, \<open>maxRetries\<close> retryable failures followed by a success return the success
  after \<open>maxRetries + 1\<close> attempts, and a first attempt that fails with an error that is
  not retryable is the only attempt, for any \<open>maxRetries\<close> that is not negative.
\<close>

theorem request_retry_policy:
  assumes "baseUrl cfg \<noteq> []" and "request cfg options ah w = (r, w')"
  shows
    "(noRetry options = Some True \<longrightarrow> attempts_made w w' = 1) \<and>
     (0 \<le> maxRetries cfg \<longrightarrow> int (attempts_made w w') \<le> maxRetries cfg + 1) \<and>
     (\<forall>k. int k < maxAttemptsOf cfg options \<and>
          (\<forall>j<k. retryable_failure (attemptOutcome cfg options ah w j)) \<and>
          \<not> retryable_failure (attemptOutcome cfg options ah w k) \<longrightarrow>
          r = attemptOutcome cfg options ah w k \<and> attempts_made w w' = k + 1) \<and>
     (0 < maxAttemptsOf cfg options \<and>
      (\<forall>j. int j < maxAttemptsOf cfg options \<longrightarrow>
           retryable_failure (attemptOutcome cfg options ah w j)) \<longrightarrow>
        r = attemptOutcome cfg options ah w (nat (maxAttemptsOf cfg options) - 1) \<and>
        attempts_made w w' = nat (maxAttemptsOf cfg options)) \<and>
     (noRetry options \<noteq> Some True \<and> 0 \<le> maxRetries cfg \<and>
      (\<forall>j < nat (maxRetries cfg). retryable_failure (attemptOutcome cfg options ah w j)) \<and>
      isOk (attemptOutcome cfg options ah w (nat (maxRetries cfg))) \<longrightarrow>
        r = attemptOutcome cfg options ah w (nat (maxRetries cfg)) \<and> isOk r \<and>
        int (attempts_made w w') = maxRetries cfg + 1) \<and>
     (\<forall>e. (noRetry options = Some True \<or> 0 \<le> maxRetries cfg) \<and>
          attemptOutcome cfg options ah w 0 = Err e \<and> \<not> isRetryable (code e) \<longrightarrow>
          r = Err e \<and> attempts_made w w' = 1)"
proof -
  let ?M = "maxAttemptsOf cfg options"
  let ?out = "attemptOutcome cfg options ah w"
  have stops: "r = ?out k \<and> attempts_made w w' = k + 1"
    if "int k < ?M" "\<forall>j<k. retryable_failure (?out j)" "\<not> retryable_failure (?out k)" for k
    using request_stops [OF assms that] .
  have exhausts: "r = ?out (nat ?M - 1) \<and> attempts_made w w' = nat ?M"
    if "0 < ?M" "\<forall>j. int j < ?M \<longrightarrow> retryable_failure (?out j)"
    using request_exhausts [OF assms that] .
  have once: "attempts_made w w' = 1" if nr: "noRetry options = Some True"
  proof (cases "retryable_failure (?out 0)")
    case False
    with stops [of 0] nr show ?thesis by (simp add: maxAttemptsOf_def)
  next
    case True
    have "\<forall>j. int j < ?M \<longrightarrow> retryable_failure (?out j)"
      using True nr by (simp add: maxAttemptsOf_def)
    with exhausts nr show ?thesis by (simp add: maxAttemptsOf_def)
  qed
  have bound: "int (attempts_made w w') \<le> maxRetries cfg + 1" if "0 \<le> maxRetries cfg"
  proof -
    from request_trace [OF assms(2)]
    have "int (attempts_made w w') \<le> max 0 (maxAttemptsOf cfg options)" by simp
    with that show ?thesis
      by (simp add: maxAttemptsOf_def split: if_splits)
  qed
  have success: "r = ?out (nat (maxRetries cfg)) \<and> isOk r \<and>
                 int (attempts_made w w') = maxRetries cfg + 1"
    if "noRetry options \<noteq> Some True" "0 \<le> maxRetries cfg"
      "\<forall>j < nat (maxRetries cfg). retryable_failure (?out j)"
      "isOk (?out (nat (maxRetries cfg)))"
  proof -
    from that(4) have "\<not> retryable_failure (?out (nat (maxRetries cfg)))"
      by (simp add: retryable_failure_def isOk_def split: Result.splits)
    with stops [of "nat (maxRetries cfg)"] that show ?thesis
      by (simp add: maxAttemptsOf_def)
  qed
  have first: "r = Err e \<and> attempts_made w w' = 1"
    if "noRetry options = Some True \<or> 0 \<le> maxRetries cfg"
      "?out 0 = Err e" "\<not> isRetryable (code e)" for e
  proof -
    from that(2,3) have "\<not> retryable_failure (?out 0)"
      by (simp add: retryable_failure_def)
    moreover from that(1) have "int 0 < ?M"
      by (auto simp add: maxAttemptsOf_def)
    ultimately show ?thesis
      using stops [of 0] that(2) by simp
  qed
  from stops exhausts once bound success first show ?thesis
    by blast
qed



text \<open>
  With the default retry settings: three 503 answers and then a 200 give the success
  after four attempts; a 404 is returned after one attempt; a descriptor with
  \<open>noRetry\<close> makes one attempt; a backend that always answers 503 gets four attempts, and
  the last 503 is returned.
\<close>

theorem request_retry_policy_witness:
  "baseUrl pihole_config \<noteq> [] \<and>
   fst (request pihole_config get_options None flaky_world) = Ok (Some ()) \<and>
   attempts_made flaky_world (snd (request pihole_config get_options None flaky_world)) = 4 \<and>
   isErr (fst (request pihole_config get_options None not_found_world)) \<and>
   attempts_made not_found_world (snd (request pihole_config get_options None not_found_world)) = 1 \<and>
   attempts_made flaky_world (snd (request pihole_config no_retry_options None flaky_world)) = 1 \<and>
   fst (request pihole_config get_options None unavailable_world) =
     Err (createError ServiceUnavailable ''HTTP 503'' 503 (Some (ErrorOptions None None))) \<and>
   attempts_made unavailable_world
     (snd (request pihole_config get_options None unavailable_world)) = 4"
proof -
  have base: "baseUrl pihole_config \<noteq> []"
    by code_simp
  have retries: "noRetry get_options \<noteq> Some True" "0 \<le> maxRetries pihole_config"
    "nat (maxRetries pihole_config) = 3" "maxRetries pihole_config + 1 = 4"
    "noRetry no_retry_options = Some True"
    by code_simp+
  have failing:
    "\<forall>j < nat (maxRetries pihole_config).
        retryable_failure (attemptOutcome pihole_config get_options None flaky_world j)"
    by code_simp
  have succeeding: "attemptOutcome pihole_config get_options None flaky_world 3 = Ok (Some ())"
    by code_simp
  have nf: "attemptOutcome pihole_config get_options None not_found_world 0 =
              Err (createError NotFound ''HTTP 404'' 404 (Some (ErrorOptions None None)))"
    "\<not> isRetryable (code (createError NotFound ''HTTP 404'' 404 (Some (ErrorOptions None None))))"
    by code_simp+
  have flaky:
    "fst (request pihole_config get_options None flaky_world) = Ok (Some ()) \<and>
     int (attempts_made flaky_world (snd (request pihole_config get_options None flaky_world))) = 4"
    using request_retry_policy
            [OF base, of get_options None flaky_world
               "fst (request pihole_config get_options None flaky_world)"
               "snd (request pihole_config get_options None flaky_world)"]
          retries failing succeeding
    by (simp add: isOk_def)
  have missing:
    "fst (request pihole_config get_options None not_found_world) =
       Err (createError NotFound ''HTTP 404'' 404 (Some (ErrorOptions None None))) \<and>
     attempts_made not_found_world
       (snd (request pihole_config get_options None not_found_world)) = 1"
    using request_retry_policy
            [OF base, of get_options None not_found_world
               "fst (request pihole_config get_options None not_found_world)"
               "snd (request pihole_config get_options None not_found_world)"]
          retries nf
    by simp
  have single:
    "attempts_made flaky_world
       (snd (request pihole_config no_retry_options None flaky_world)) = 1"
    using request_retry_policy
            [OF base, of no_retry_options None flaky_world
               "fst (request pihole_config no_retry_options None flaky_world)"
               "snd (request pihole_config no_retry_options None flaky_world)"]
          retries
    by simp
  have budget: "maxAttemptsOf pihole_config get_options = 4"
    by code_simp
  have unavailable:
    "attemptOutcome pihole_config get_options None unavailable_world j =
       Err (createError ServiceUnavailable ''HTTP 503'' 503 (Some (ErrorOptions None None)))"
    for j
    by (simp add: attemptOutcome_def unavailable_world_def attemptResult_def
          handleResponse_def response_ok_def parseErrorResponse_def statusToErrorCode_def
          show_status_def)
  have retryable:
    "\<forall>j. int j < maxAttemptsOf pihole_config get_options \<longrightarrow>
         retryable_failure (attemptOutcome pihole_config get_options None unavailable_world j)"
    by (simp add: unavailable retryable_failure_def isRetryable_def createError_def)
  have exhausted:
    "fst (request pihole_config get_options None unavailable_world) =
       Err (createError ServiceUnavailable ''HTTP 503'' 503 (Some (ErrorOptions None None))) \<and>
     attempts_made unavailable_world
       (snd (request pihole_config get_options None unavailable_world)) = 4"
    using request_retry_policy
            [OF base, of get_options None unavailable_world
               "fst (request pihole_config get_options None unavailable_world)"
               "snd (request pihole_config get_options None unavailable_world)"]
          budget retryable unavailable [of 3]
    by simp
  from base flaky missing single exhausted show ?thesis
    by (simp add: isErr_def isOk_def)
qed

text \<open>
  Claim C1 as stated fails in two configurations: with the default, empty base URL a
  descriptor with \<open>noRetry\<close> set makes no attempt at all, and with \<open>maxRetries = -2\<close> the
  number of attempts, zero, is above \<open>maxRetries + 1\<close>.
\<close>

theorem request_retry_policy_counterexample:
  "noRetry no_retry_options = Some True \<and>
   attempts_made flaky_world
     (snd (request DEFAULT_HTTP_CONFIG no_retry_options None flaky_world)) = 0 \<and>
   baseUrl negative_retries_config \<noteq> [] \<and>
   maxRetries negative_retries_config + 1 = - 1 \<and>
   attempts_made flaky_world
     (snd (request negative_retries_config get_options None flaky_world)) = 0"
  by code_simp

subsection \<open>Backoff delays\<close>

text \<open>
  Claim C5. The delay computed for attempt index \<open>i\<close> is
  \<open>min(retryDelayMax, retryDelayBase * backoffMultiplier^i)\<close>; the sleeps of a call of
  \<open>request\<close> are, in order, the delays for the attempt indices 0, 1, ... up to the last
  attempt but one; with the default configuration the delays for the attempts 0, 1, 2
  are 1000, 2000 and 4000 ms.
\<close>

theorem backoff_delays:
  "calculateDelay cfg i =
     min (retryDelayMax cfg) (retryDelayBase cfg * backoffMultiplier cfg ^ i) \<and>
   delays_slept w (snd (request cfg options ah w)) =
     map (\<lambda>i. min (retryDelayMax cfg) (retryDelayBase cfg * backoffMultiplier cfg ^ i))
       [0..<attempts_made w (snd (request cfg options ah w)) - 1] \<and>
   map (calculateDelay DEFAULT_HTTP_CONFIG) [0, 1, 2] = [1000, 2000, 4000]"
proof -
  have delay: "calculateDelay cfg i =
     min (retryDelayMax cfg) (retryDelayBase cfg * backoffMultiplier cfg ^ i)" for i
    by (simp add: calculateDelay_def Let_def min.commute)
  obtain r w' where req: "request cfg options ah w = (r, w')"
    by (cases "request cfg options ah w")
  from request_trace [OF req]
  have "delays_slept w w' = map (calculateDelay cfg) [0..<attempts_made w w' - 1]"
    by (simp add: delays_slept_def)
  with req have slept: "delays_slept w (snd (request cfg options ah w)) =
     map (\<lambda>i. min (retryDelayMax cfg) (retryDelayBase cfg * backoffMultiplier cfg ^ i))
       [0..<attempts_made w (snd (request cfg options ah w)) - 1]"
    by (simp add: delay)
  have defaults: "map (calculateDelay DEFAULT_HTTP_CONFIG) [0, 1, 2] = [1000, 2000, 4000]"
    by (simp add: calculateDelay_def DEFAULT_HTTP_CONFIG_def)
  from delay slept defaults show ?thesis by simp
qed

text \<open>Three 503 answers and then a 200: the call sleeps 1000, 2000 and 4000 ms.\<close>

theorem backoff_delays_witness:
  "delays_slept flaky_world (snd (request pihole_config get_options None flaky_world)) =
     [1000, 2000, 4000]"
proof -
  have n: "attempts_made flaky_world
             (snd (request pihole_config get_options None flaky_world)) - 1 = 3"
    by code_simp
  have d: "map (\<lambda>i. min (retryDelayMax pihole_config)
                    (retryDelayBase pihole_config * backoffMultiplier pihole_config ^ i))
             [0..<3] = [1000, 2000, 4000]"
    by code_simp
  from backoff_delays [of pihole_config 0 flaky_world get_options None] n d
  show ?thesis by simp
qed

subsection \<open>Failure of \<open>authenticate\<close>\<close>

text \<open>
  Claim C4, as amended. When \<open>authenticate\<close> has a password and its login call returns a
  failure, it returns false. If the classified error is \<open>TotpRequired\<close>, the Session becomes
  the inert two-factor state (sid and csrf empty, expiry 0, flag set), so that
  \<open>isTotpRequired()\<close> is true and \<open>hasSession()\<close> is false. For any other failure the session
  manager is left as it was: the Session is absent afterwards only if it was absent
  before.
\<close>

theorem authenticate_failure:
  assumes "truthy (password sm)"
    and "request http (loginOptions (the (password sm)) otp) None w = (Err e, w1)"
  shows "\<exists>sm'. authenticate http otp sm w = (Resolves False, sm', w1) \<and>
           (code e = TotpRequired \<longrightarrow>
              state sm' = Some \<lparr> SessionState.sid = [], SessionState.csrf = [],
                                  expiresAt = 0, totpRequired = True \<rparr> \<and>
              isTotpRequired sm' \<and> \<not> hasSession sm' w1) \<and>
           (code e \<noteq> TotpRequired \<longrightarrow> sm' = sm)"
  using assms
  by (simp add: authenticate_def authenticated_def isTotpRequired_def hasSession_def
        isExpired_def)

text \<open>
  A backend that answers the login with the key \<open>totp_required\<close>, and one that answers it
  with a 500 while a Session exists.
\<close>

theorem authenticate_failure_witness:
  "fst (authenticate pihole_config None password_manager totp_world) = Resolves False \<and>
   isTotpRequired (fst (snd (authenticate pihole_config None password_manager totp_world))) \<and>
   \<not> hasSession (fst (snd (authenticate pihole_config None password_manager totp_world)))
        (snd (snd (authenticate pihole_config None password_manager totp_world))) \<and>
   fst (snd (authenticate pihole_config None established_manager server_error_world)) =
     established_manager"
proof -
  let ?login = "loginOptions ''x'' None"
  have pw: "truthy (password password_manager)" "truthy (password established_manager)"
    "the (password password_manager) = ''x''" "the (password established_manager) = ''x''"
    by code_simp+
  have totp:
    "fst (request pihole_config ?login None totp_world) =
       Err (createError TotpRequired ''HTTP 401'' 401
              (Some (ErrorOptions None (Some ''totp_required''))))"
    by code_simp
  have failed:
    "fst (request pihole_config ?login None server_error_world) =
       Err (createError ServerError ''HTTP 500'' 500 (Some (ErrorOptions None None)))"
    by code_simp
  have codes:
    "code (createError TotpRequired ''HTTP 401'' 401
             (Some (ErrorOptions None (Some ''totp_required'')))) = TotpRequired"
    "code (createError ServerError ''HTTP 500'' 500 (Some (ErrorOptions None None)))
       \<noteq> TotpRequired"
    by (simp_all add: createError_def)
  have req1:
    "request pihole_config (loginOptions (the (password password_manager)) None) None
       totp_world =
     (Err (createError TotpRequired ''HTTP 401'' 401
             (Some (ErrorOptions None (Some ''totp_required'')))),
      snd (request pihole_config ?login None totp_world))"
    using totp pw(3) by (simp add: prod_eq_iff)
  have req2:
    "request pihole_config (loginOptions (the (password established_manager)) None) None
       server_error_world =
     (Err (createError ServerError ''HTTP 500'' 500 (Some (ErrorOptions None None))),
      snd (request pihole_config ?login None server_error_world))"
    using failed pw(4) by (simp add: prod_eq_iff)
  from authenticate_failure [OF pw(1) req1] codes(1)
  have a: "fst (authenticate pihole_config None password_manager totp_world) = Resolves False \<and>
   isTotpRequired (fst (snd (authenticate pihole_config None password_manager totp_world))) \<and>
   \<not> hasSession (fst (snd (authenticate pihole_config None password_manager totp_world)))
        (snd (snd (authenticate pihole_config None password_manager totp_world)))"
    by auto
  from authenticate_failure [OF pw(2) req2] codes(2)
  have b: "fst (snd (authenticate pihole_config None established_manager server_error_world)) =
     established_manager"
    by auto
  from a b show ?thesis by simp
qed

text \<open>
  Claim C4 as stated fails when a Session exists and the login fails with another error
  than \<open>TotpRequired\<close>: \<open>authenticate\<close> returns false and the Session is still there.
\<close>

theorem authenticate_failure_counterexample:
  "isErr (fst (request pihole_config (loginOptions (the (password established_manager)) None)
                 None server_error_world)) \<and>
   fst (authenticate pihole_config None established_manager server_error_world) =
     Resolves False \<and>
   state (fst (snd (authenticate pihole_config None established_manager server_error_world)))
     \<noteq> None"
  by code_simp

subsection \<open>Logout\<close>

text \<open>
  Claim C7. After \<open>logout\<close> the Session is absent, whatever the server answered. Without a
  Session, \<open>logout\<close> returns true and does nothing else (no call is made). With a Session,
  it makes one call that is not retried, clears the local state, and returns true exactly
  when that call succeeds or fails with HTTP status 401.
\<close>

theorem logout_postcondition:
  "state (fst (snd (logout http sm w))) = None \<and>
   (state sm = None \<longrightarrow> logout http sm w = (True, sm, w)) \<and>
   (state sm \<noteq> None \<longrightarrow>
      snd (snd (logout http sm w)) = snd (request http logoutOptions (getAuthHeaders sm) w) \<and>
      refreshPromise (fst (snd (logout http sm w))) = None \<and>
      attempts_made w (snd (snd (logout http sm w))) \<le> 1 \<and>
      (fst (logout http sm w) \<longleftrightarrow>
         (case fst (request http logoutOptions (getAuthHeaders sm) w) of
            Ok _ \<Rightarrow> True
          | Err e \<Rightarrow> PiholeError.status e = 401)))"
proof -
  obtain r w1 where req: "request http logoutOptions (getAuthHeaders sm) w = (r, w1)"
    by (cases "request http logoutOptions (getAuthHeaders sm) w")
  from request_trace [OF req]
  have "int (attempts_made w w1) \<le> max 0 (maxAttemptsOf http logoutOptions)"
    by simp
  then have once: "attempts_made w w1 \<le> 1"
    by (simp add: maxAttemptsOf_def logoutOptions_def)
  show ?thesis
    using req once
    by (auto simp add: logout_def clear_def Let_def split: Result.splits)
qed

text \<open>
  A 401 on logout counts as success, a 500 does not, and both clear the Session; without
  a Session nothing happens.
\<close>

theorem logout_postcondition_witness:
  "fst (logout pihole_config established_manager unauthorized_world) \<and>
   state (fst (snd (logout pihole_config established_manager unauthorized_world))) = None \<and>
   \<not> fst (logout pihole_config established_manager server_error_world) \<and>
   state (fst (snd (logout pihole_config established_manager server_error_world))) = None \<and>
   logout pihole_config password_manager server_error_world =
     (True, password_manager, server_error_world)"
proof -
  have st: "state established_manager \<noteq> None" "state password_manager = None"
    by code_simp+
  have r401:
    "PiholeError.status
       (case fst (request pihole_config logoutOptions (getAuthHeaders established_manager)
                    unauthorized_world) of Err e \<Rightarrow> e) = 401"
    "isErr (fst (request pihole_config logoutOptions (getAuthHeaders established_manager)
                    unauthorized_world))"
    by code_simp+
  have r500:
    "PiholeError.status
       (case fst (request pihole_config logoutOptions (getAuthHeaders established_manager)
                    server_error_world) of Err e \<Rightarrow> e) = 500"
    "isErr (fst (request pihole_config logoutOptions (getAuthHeaders established_manager)
                    server_error_world))"
    by code_simp+
  from logout_postcondition [of pihole_config established_manager unauthorized_world]
       logout_postcondition [of pihole_config established_manager server_error_world]
       logout_postcondition [of pihole_config password_manager server_error_world]
       st r401 r500
  show ?thesis
    by (auto simp add: isErr_def isOk_def split: Result.splits)
qed

subsection \<open>Traces of the session manager\<close>

text \<open>What each operation appends to the trace.\<close>

lemma requests_for_append [simp]:
  "requests_for options (xs @ ys) = requests_for options xs @ requests_for options ys"
  by (induction xs rule: requests_for.induct) simp_all

lemma quiet_Nil [simp]: "quiet options []"
  by (simp add: quiet_def)

lemma quiet_append [simp]: "quiet options (xs @ ys) \<longleftrightarrow> quiet options xs \<and> quiet options ys"
  by (auto simp add: quiet_def)

lemma quiet_Fetch [simp]: "quiet options [Fetch c]"
  by (simp add: quiet_def)

lemma quiet_Sleep [simp]: "quiet options [Sleep d]"
  by (simp add: quiet_def)

lemma quiet_Request [simp]: "quiet options [Request options' ah] \<longleftrightarrow> options' \<noteq> options"
  by (simp add: quiet_def)

lemma executeRequest_events:
  "executeRequest cfg options ah tmo w = (r, w') \<Longrightarrow>
     \<exists>es. trace w' = trace w @ es \<and> quiet o' es"
  by (auto simp add: executeRequest_def Let_def split: prod.splits)

lemma sleep_events: "\<exists>es. trace (sleep d w) = trace w @ es \<and> quiet o' es"
  by (simp add: sleep_def)

lemma request_loop_events:
  "request_loop cfg options ah tmo M a lastError w = (r, w') \<Longrightarrow>
     \<exists>es. trace w' = trace w @ es \<and> quiet o' es"
proof (induction "nat (M - int a)" arbitrary: a w lastError)
  case 0
  then have "\<not> int a < M" by simp
  from request_loop_exit [OF this, of cfg options ah tmo lastError w] 0(2)
  have "w' = w" by simp
  then show ?case by simp
next
  case (Suc n)
  then have lt: "int a < M" by simp
  obtain r1 w1 where ex: "executeRequest cfg options ah tmo w = (r1, w1)"
    by (cases "executeRequest cfg options ah tmo w")
  from executeRequest_events [OF ex]
  obtain es1 where es1: "trace w1 = trace w @ es1" "quiet o' es1" by blast
  show ?case
  proof (cases "retryable_failure r1")
    case False
    then have "request_loop cfg options ah tmo M a lastError w = (r1, w1)"
      by (subst request_loop.simps)
         (auto simp add: ex lt retryable_failure_def split: Result.splits)
    with Suc(3) es1 show ?thesis by auto
  next
    case True
    then obtain e where r1: "r1 = Err e" and re: "isRetryable (code e)"
      by (auto simp add: retryable_failure_def split: Result.splits)
    let ?w2 = "if int a < M - 1 then sleep (calculateDelay cfg a) w1 else w1"
    have "request_loop cfg options ah tmo M a lastError w =
          request_loop cfg options ah tmo M (Suc a) (Some e) ?w2"
      by (subst request_loop.simps) (simp add: ex lt r1 re)
    with Suc(3) have rec: "request_loop cfg options ah tmo M (Suc a) (Some e) ?w2 = (r, w')"
      by simp
    have n: "n = nat (M - int (Suc a))" using Suc(2) by simp
    from Suc(1) [OF n rec]
    obtain es3 where es3: "trace w' = trace ?w2 @ es3" "quiet o' es3" by blast
    obtain es2 where es2: "trace ?w2 = trace w1 @ es2" "quiet o' es2"
      using sleep_events [of "calculateDelay cfg a" w1 o'] by (cases "int a < M - 1") auto
    from es1 es2 es3 have "trace w' = trace w @ (es1 @ es2 @ es3) \<and> quiet o' (es1 @ es2 @ es3)"
      by simp
    then show ?thesis by blast
  qed
qed

lemma request_events:
  assumes "request cfg options ah w = (r, w')"
  shows "\<exists>es. trace w' = trace w @ Request options ah # es \<and> (\<forall>o'. quiet o' es)"
proof (cases "baseUrl cfg = []")
  case True
  with assms show ?thesis by (auto simp add: request_no_baseUrl)
next
  case False
  let ?w0 = "log_event (Request options ah) w"
  from False assms obtain tmo where
    loop: "request_loop cfg options ah tmo (maxAttemptsOf cfg options) 0 None ?w0 = (r, w')"
    by (auto simp add: request_unfold)
  have "\<exists>es. trace w' = trace ?w0 @ es \<and> (\<forall>o'. quiet o' es)"
  proof -
    from request_loop_events [OF loop, of options]
    obtain es where es: "trace w' = trace ?w0 @ es" by blast
    have "quiet o' es" for o'
      using request_loop_events [OF loop, of o'] es by auto
    with es show ?thesis by blast
  qed
  then show ?thesis by auto
qed


lemma authenticate_events:
  assumes "authenticate http otp sm w = (v, sm', w')"
  shows "\<exists>es. trace w' = trace w @ es \<and> (\<forall>o'. noRetry o' \<noteq> Some True \<longrightarrow> quiet o' es)"
proof (cases "truthy (password sm)")
  case False
  with assms show ?thesis by (simp add: authenticate_def)
next
  case True
  let ?login = "loginOptions (the (password sm)) otp"
  obtain r w1 where req: "request http ?login None w = (r, w1)"
    by (cases "request http ?login None w")
  from request_events [OF req]
  obtain es where es: "trace w1 = trace w @ Request ?login None # es" "\<forall>o'. quiet o' es"
    by blast
  from True assms req have "w' = w1"
    by (auto simp add: authenticate_def split: prod.splits)
  moreover have "quiet o' (Request ?login None # es)" if "noRetry o' \<noteq> Some True" for o'
  proof -
    from that have "?login \<noteq> o'" by (auto simp add: loginOptions_def)
    with es(2) show ?thesis
      using quiet_append [of o' "[Request ?login None]" es] by simp
  qed
  ultimately show ?thesis using es(1) by blast
qed

lemma authenticate_resolves_True:
  assumes "authenticate http otp sm w = (Resolves True, sm', w')"
  shows "\<exists>a. request http (loginOptions (the (password sm)) otp) None w =
                (Ok (Some (AuthData a)), w') \<and>
              sm' = updateSession (session a) sm w'"
  using assms
  by (auto simp add: authenticate_def authenticated_def
      split: if_splits prod.splits Result.splits option.splits Payload.splits)

lemma ensureSession_events:
  assumes "ensureSession http sm w = (v, sm', w')"
  shows "\<exists>es. trace w' = trace w @ es \<and> (\<forall>o'. noRetry o' \<noteq> Some True \<longrightarrow> quiet o' es)"
proof (cases "(hasSession sm w \<and> \<not> needsRefresh sm w) \<or> refreshPromise sm \<noteq> None")
  case True
  with assms have "w' = w"
    by (auto simp add: ensureSession_def split: if_splits option.splits)
  then show ?thesis by simp
next
  case False
  obtain v1 sm1 w1 where auth: "authenticate http None sm w = (v1, sm1, w1)"
    by (cases "authenticate http None sm w")
  from False assms auth have "w' = w1"
    by (auto simp add: ensureSession_def split: Settled.splits)
  with authenticate_events [OF auth] show ?thesis by simp
qed

lemma handleUnauthorized_events:
  assumes "handleUnauthorized http sm w = (v, sm', w')"
  shows "\<exists>es. trace w' = trace w @ HandleUnauthorized # es \<and>
              (\<forall>o'. noRetry o' \<noteq> Some True \<longrightarrow> quiet o' es)"
  using authenticate_events [OF assms [unfolded handleUnauthorized_def]]
  by simp

lemma new_events_append [simp]: "trace w' = trace w @ es \<Longrightarrow> new_events w w' = es"
  by (simp add: new_events_def)

lemma quiet_count [simp]: "quiet o' es \<Longrightarrow> filter (\<lambda>e. e = HandleUnauthorized) es = []"
  by (auto simp add: quiet_def filter_empty_conv)

lemma quiet_requests [simp]: "quiet o' es \<Longrightarrow> requests_for o' es = []"
  by (simp add: quiet_def)

subsection \<open>One-shot recovery from a 401\<close>

text \<open>
  Claim C2. Take a call of \<open>PiholeClient.request\<close> in which \<open>ensureSession\<close> returned true
  and the delegated HTTP call failed with status 401. Then \<open>handleUnauthorized\<close> is called
  exactly once during the call. If it returns true, \<open>HttpClient.request\<close> is entered for
  the descriptor exactly twice, the second time with the auth headers of the Session that
  the re-authentication obtained from the backend, and the outcome of that second call
  is returned as it is, whatever it is. If it returns false, \<open>HttpClient.request\<close> is
  entered for the descriptor only once and the original 401 failure is returned.
\<close>

theorem facade_unauthorized_recovery:
  assumes ensured: "ensureSession http sm w = (Resolves True, sm1, w1)"
    and first: "request http (facadeOptions m p b) (getAuthHeaders sm1) w1 = (Err e, w2)"
    and unauthorized: "PiholeError.status e = 401"
    and reauth: "handleUnauthorized http sm1 w2 = (reauthed, sm3, w3)"
    and call: "client_request http m p b sm w = (result, sm', w')"
  shows "reauthentications w w' = 1 \<and>
         (reauthed = Resolves True \<longrightarrow>
            result = Resolves (fst (request http (facadeOptions m p b) (getAuthHeaders sm3) w3)) \<and>
            requests_for (facadeOptions m p b) (new_events w w') =
              [getAuthHeaders sm1, getAuthHeaders sm3] \<and>
            (\<exists>a. fst (request http (loginOptions (the (password sm1)) None) None
                         (log_event HandleUnauthorized w2)) = Ok (Some (AuthData a)) \<and>
                 getAuthHeaders sm3 =
                   Some [(''X-FTL-SID'', Session.sid (session a)),
                         (''X-FTL-CSRF'', Session.csrf (session a))])) \<and>
         (reauthed = Resolves False \<longrightarrow>
            result = Resolves (Err e) \<and>
            requests_for (facadeOptions m p b) (new_events w w') = [getAuthHeaders sm1])"
proof -
  let ?o = "facadeOptions m p b"
  have nr: "noRetry ?o \<noteq> Some True" by (simp add: facadeOptions_def)
  from ensureSession_events [OF ensured] nr
  obtain es0 where es0: "trace w1 = trace w @ es0" "quiet ?o es0" by blast
  from request_events [OF first]
  obtain es1 where es1: "trace w2 = trace w1 @ Request ?o (getAuthHeaders sm1) # es1"
    "quiet ?o es1" by blast
  from handleUnauthorized_events [OF reauth] nr
  obtain es2 where es2: "trace w3 = trace w2 @ HandleUnauthorized # es2" "quiet ?o es2" by blast
  obtain r4 w4 where second: "request http ?o (getAuthHeaders sm3) w3 = (r4, w4)"
    by (cases "request http ?o (getAuthHeaders sm3) w3")
  from request_events [OF second]
  obtain es3 where es3: "trace w4 = trace w3 @ Request ?o (getAuthHeaders sm3) # es3"
    "quiet ?o es3" by blast
  have unfolded: "(result, sm', w') =
      (case reauthed of
         Rejects \<Rightarrow> (Rejects, sm3, w3)
       | Resolves True \<Rightarrow> (Resolves r4, sm3, w4)
       | Resolves False \<Rightarrow> (Resolves (Err e), sm3, w3))"
    using call ensured first unauthorized reauth second
    by (simp add: client_request_def split: Settled.splits bool.splits)
  have t3: "trace w3 = trace w @ (es0 @ Request ?o (getAuthHeaders sm1) # es1 @
                                   HandleUnauthorized # es2)"
    using es0 es1 es2 by simp
  have t4: "trace w4 = trace w @ (es0 @ Request ?o (getAuthHeaders sm1) # es1 @
                                   HandleUnauthorized # es2 @
                                   Request ?o (getAuthHeaders sm3) # es3)"
    using t3 es3 by simp
  have count: "reauthentications w w' = 1"
  proof (cases reauthed)
    case Rejects
    with unfolded have "w' = w3" by simp
    with t3 es0 es1 es2 show ?thesis
      by (simp add: reauthentications_def)
  next
    case (Resolves x)
    show ?thesis
    proof (cases x)
      case True
      with Resolves unfolded have "w' = w4" by simp
      with t4 es0 es1 es2 es3 show ?thesis
        by (simp add: reauthentications_def)
    next
      case False
      with Resolves unfolded have "w' = w3" by simp
      with t3 es0 es1 es2 show ?thesis
        by (simp add: reauthentications_def)
    qed
  qed
  have yes: "result = Resolves (fst (request http ?o (getAuthHeaders sm3) w3)) \<and>
             requests_for ?o (new_events w w') = [getAuthHeaders sm1, getAuthHeaders sm3] \<and>
             (\<exists>a. fst (request http (loginOptions (the (password sm1)) None) None
                         (log_event HandleUnauthorized w2)) = Ok (Some (AuthData a)) \<and>
                 getAuthHeaders sm3 =
                   Some [(''X-FTL-SID'', Session.sid (session a)),
                         (''X-FTL-CSRF'', Session.csrf (session a))])"
    if ok: "reauthed = Resolves True"
  proof -
    from ok unfolded second have res: "result = Resolves (fst (request http ?o (getAuthHeaders sm3) w3))"
      and w': "w' = w4" by simp_all
    from w' t4 es0 es1 es2 es3
    have reqs: "requests_for ?o (new_events w w') = [getAuthHeaders sm1, getAuthHeaders sm3]"
      by simp
    from reauth ok
    have "authenticate http None (sm1\<lparr>state := None\<rparr>) (log_event HandleUnauthorized w2) =
            (Resolves True, sm3, w3)"
      by (simp add: handleUnauthorized_def)
    from authenticate_resolves_True [OF this]
    obtain a where a: "fst (request http (loginOptions (the (password sm1)) None) None
                         (log_event HandleUnauthorized w2)) = Ok (Some (AuthData a))"
      "sm3 = updateSession (session a) (sm1\<lparr>state := None\<rparr>) w3"
      by fastforce
    from a(2) have "getAuthHeaders sm3 =
                   Some [(''X-FTL-SID'', Session.sid (session a)),
                         (''X-FTL-CSRF'', Session.csrf (session a))]"
      by (simp add: getAuthHeaders_def updateSession_def)
    with res reqs a(1) show ?thesis by blast
  qed
  have no: "result = Resolves (Err e) \<and>
            requests_for ?o (new_events w w') = [getAuthHeaders sm1]"
    if "reauthed = Resolves False"
  proof -
    from that unfolded have "result = Resolves (Err e)" "w' = w3" by simp_all
    with t3 es0 es1 es2 show ?thesis by simp
  qed
  from count yes no show ?thesis by blast
qed


text \<open>
  A backend that accepts every login and answers 401 to everything else: the second 401
  is returned, after one re-authentication and two calls, the second with the new
  headers. A backend that refuses the second login: the first 401 is returned after one
  re-authentication and one call.
\<close>

theorem facade_unauthorized_recovery_witness:
  "reauthentications stubborn_world
     (snd (snd (client_request pihole_config GET ''/api/x'' None password_manager
                  stubborn_world))) = 1 \<and>
   fst (client_request pihole_config GET ''/api/x'' None password_manager stubborn_world) =
     Resolves (Err (createError Unauthorized ''HTTP 401'' 401 (Some (ErrorOptions None None)))) \<and>
   requests_for (facadeOptions GET ''/api/x'' None)
     (new_events stubborn_world
        (snd (snd (client_request pihole_config GET ''/api/x'' None password_manager
                     stubborn_world)))) =
     [Some [(''X-FTL-SID'', ''s1''), (''X-FTL-CSRF'', ''c1'')],
      Some [(''X-FTL-SID'', ''s2''), (''X-FTL-CSRF'', ''c2'')]] \<and>
   reauthentications locked_world
     (snd (snd (client_request pihole_config GET ''/api/x'' None password_manager
                  locked_world))) = 1 \<and>
   requests_for (facadeOptions GET ''/api/x'' None)
     (new_events locked_world
        (snd (snd (client_request pihole_config GET ''/api/x'' None password_manager
                     locked_world)))) =
     [Some [(''X-FTL-SID'', ''s1''), (''X-FTL-CSRF'', ''c1'')]]"
proof -
  let ?o = "facadeOptions GET ''/api/x'' None"
  let ?e = "createError Unauthorized ''HTTP 401'' 401 (Some (ErrorOptions None None))"
  have st: "PiholeError.status ?e = 401" by (simp add: createError_def)
  have stubborn:
    "reauthentications stubborn_world
       (snd (snd (client_request pihole_config GET ''/api/x'' None password_manager
                    stubborn_world))) = 1 \<and>
     fst (client_request pihole_config GET ''/api/x'' None password_manager stubborn_world) =
       Resolves (Err ?e) \<and>
     requests_for ?o
       (new_events stubborn_world
          (snd (snd (client_request pihole_config GET ''/api/x'' None password_manager
                       stubborn_world)))) =
       [Some [(''X-FTL-SID'', ''s1''), (''X-FTL-CSRF'', ''c1'')],
        Some [(''X-FTL-SID'', ''s2''), (''X-FTL-CSRF'', ''c2'')]]"
  proof -
    let ?w = stubborn_world
    let ?ens = "ensureSession pihole_config password_manager ?w"
    let ?sm1 = "fst (snd ?ens)"
    let ?w1 = "snd (snd ?ens)"
    let ?req = "request pihole_config ?o (getAuthHeaders ?sm1) ?w1"
    let ?w2 = "snd ?req"
    let ?hu = "handleUnauthorized pihole_config ?sm1 ?w2"
    let ?sm3 = "fst (snd ?hu)"
    let ?w3 = "snd (snd ?hu)"
    let ?call = "client_request pihole_config GET ''/api/x'' None password_manager ?w"
    have e1: "fst ?ens = Resolves True" by code_simp
    have e2: "fst ?req = Err ?e" by code_simp
    have e3: "fst ?hu = Resolves True" by code_simp
    have e4: "fst (request pihole_config ?o (getAuthHeaders ?sm3) ?w3) = Err ?e" by code_simp
    have h1: "getAuthHeaders ?sm1 = Some [(''X-FTL-SID'', ''s1''), (''X-FTL-CSRF'', ''c1'')]"
      by code_simp
    have h3: "getAuthHeaders ?sm3 = Some [(''X-FTL-SID'', ''s2''), (''X-FTL-CSRF'', ''c2'')]"
      by code_simp
    have ensured: "?ens = (Resolves True, ?sm1, ?w1)"
      using e1 by (simp add: prod_eq_iff)
    have first: "?req = (Err ?e, ?w2)"
      using e2 by (simp add: prod_eq_iff)
    have reauth: "?hu = (fst ?hu, ?sm3, ?w3)" by simp
    have call: "?call = (fst ?call, fst (snd ?call), snd (snd ?call))" by simp
    from facade_unauthorized_recovery [OF ensured first st reauth call] e3 e4 h1 h3
    show ?thesis by simp
  qed
  have locked:
    "reauthentications locked_world
       (snd (snd (client_request pihole_config GET ''/api/x'' None password_manager
                    locked_world))) = 1 \<and>
     requests_for ?o
       (new_events locked_world
          (snd (snd (client_request pihole_config GET ''/api/x'' None password_manager
                       locked_world)))) =
       [Some [(''X-FTL-SID'', ''s1''), (''X-FTL-CSRF'', ''c1'')]]"
  proof -
    let ?w = locked_world
    let ?ens = "ensureSession pihole_config password_manager ?w"
    let ?sm1 = "fst (snd ?ens)"
    let ?w1 = "snd (snd ?ens)"
    let ?req = "request pihole_config ?o (getAuthHeaders ?sm1) ?w1"
    let ?w2 = "snd ?req"
    let ?hu = "handleUnauthorized pihole_config ?sm1 ?w2"
    let ?sm3 = "fst (snd ?hu)"
    let ?w3 = "snd (snd ?hu)"
    let ?call = "client_request pihole_config GET ''/api/x'' None password_manager ?w"
    have e1: "fst ?ens = Resolves True" by code_simp
    have e2: "fst ?req = Err ?e" by code_simp
    have e3: "fst ?hu = Resolves False" by code_simp
    have h1: "getAuthHeaders ?sm1 = Some [(''X-FTL-SID'', ''s1''), (''X-FTL-CSRF'', ''c1'')]"
      by code_simp
    have ensured: "?ens = (Resolves True, ?sm1, ?w1)"
      using e1 by (simp add: prod_eq_iff)
    have first: "?req = (Err ?e, ?w2)"
      using e2 by (simp add: prod_eq_iff)
    have reauth: "?hu = (fst ?hu, ?sm3, ?w3)" by simp
    have call: "?call = (fst ?call, fst (snd ?call), snd (snd ?call))" by simp
    from facade_unauthorized_recovery [OF ensured first st reauth call] e3 h1
    show ?thesis by simp
  qed
  from stubborn locked show ?thesis by simp
qed

subsection \<open>The shape of the Session\<close>









lemma updateSession_shape [simp]: "session_shape (updateSession s sm w)"
  by (simp add: session_shape_def updateSession_def)

lemma totp_shape [simp]:
  "session_shape (sm\<lparr>state := Some totp_state\<rparr>)"
  "identified (sm\<lparr>state := Some totp_state\<rparr>)"
  by (simp_all add: session_shape_def identified_def totp_state_def)

lemma absent_shape [simp]:
  "session_shape (sm\<lparr>state := None\<rparr>)" "identified (sm\<lparr>state := None\<rparr>)"
  by (simp_all add: session_shape_def identified_def)

lemma shape_refreshPromise [simp]:
  "session_shape (sm\<lparr>refreshPromise := p\<rparr>) = session_shape sm"
  "identified (sm\<lparr>refreshPromise := p\<rparr>) = identified sm"
  by (simp_all add: session_shape_def identified_def)

lemma shape_password [simp]:
  "session_shape (sm\<lparr>password := p\<rparr>) = session_shape sm"
  "identified (sm\<lparr>password := p\<rparr>) = identified sm"
  by (simp_all add: session_shape_def identified_def)


lemma kept_state_None:
  "kept w0 (sm, w) \<Longrightarrow> kept w0 (sm\<lparr>state := None\<rparr>, w)"
  by (simp add: kept_def)












subsection \<open>Concurrent calls of \<open>ensureSession\<close>\<close>

text \<open>
  The two pieces of \<open>authenticate\<close> of the concurrent model, run one after the other,
  are \<open>authenticate\<close>.
\<close>

lemma authenticate_split:
  "authenticate cfg otp sm w =
     (case authenticate_begin cfg otp sm w of
        (Settled v, w1) \<Rightarrow> (v, sm, w1)
      | (Pending r, w1) \<Rightarrow>
          (let w2 = w1\<lparr>now := now (snd (request cfg (loginOptions (the (password sm)) otp) None w))\<rparr>
           in (fst (authenticated r sm w2), snd (authenticated r sm w2), w2)))"
proof (cases "truthy (password sm)")
  case False
  then show ?thesis by (simp add: authenticate_def authenticate_begin_def)
next
  case True
  obtain r wr where req: "request cfg (loginOptions (the (password sm)) otp) None w = (r, wr)"
    by (cases "request cfg (loginOptions (the (password sm)) otp) None w")
  from request_trace [OF req] have "net wr = net w" by simp
  then have "w\<lparr>trace := trace wr, now := now wr\<rparr> = wr"
    by (cases w, cases wr) simp
  with True req show ?thesis
    by (simp add: authenticate_def authenticate_begin_def split: prod.splits)
qed

text \<open>The steps of a schedule, phase by phase.\<close>

lemma request_noRetry:
  assumes "baseUrl cfg \<noteq> []" and "noRetry options = Some True"
    and "request cfg options ah w = (r, w')"
  shows "r = attemptOutcome cfg options ah w 0 \<and> attempts_made w w' = 1"
proof (cases "retryable_failure (attemptOutcome cfg options ah w 0)")
  case False
  from request_stops [OF assms(1,3), of 0] False assms(2) show ?thesis
    by (simp add: maxAttemptsOf_def)
next
  case True
  have "\<forall>j. int j < maxAttemptsOf cfg options \<longrightarrow>
           retryable_failure (attemptOutcome cfg options ah w j)"
    using True assms(2) by (simp add: maxAttemptsOf_def)
  from request_exhausts [OF assms(1,3) _ this] assms(2) show ?thesis
    by (simp add: maxAttemptsOf_def)
qed

lemma attemptOutcome_now [simp]:
  "attemptOutcome cfg options ah (w\<lparr>now := n\<rparr>) i = attemptOutcome cfg options ah w i"
  by (simp add: attemptOutcome_def)

lemma attempts_made_now [simp]:
  "attempts_made w0 (w\<lparr>now := n\<rparr>) = attempts_made w0 w"
  by (simp add: attempts_made_def)

lemma valid_later:
  "hasSession sm (w\<lparr>now := now w + d\<rparr>) \<and> \<not> needsRefresh sm (w\<lparr>now := now w + d\<rparr>) \<Longrightarrow>
     hasSession sm w \<and> \<not> needsRefresh sm w"
  by (auto simp add: hasSession_def isExpired_def needsRefresh_def Let_def
      split: option.splits if_splits)

lemma authenticated_outcome: "fst (authenticated r sm w) = login_outcome r"
  by (simp add: authenticated_def login_outcome_def
      split: Result.splits option.splits Payload.splits)

lemma authenticated_refreshPromise:
  "refreshPromise (snd (authenticated r sm w)) = refreshPromise sm"
  by (simp add: authenticated_def updateSession_def
      split: Result.splits option.splits Payload.splits)

lemma untouched_Tick: "untouched c0 c \<Longrightarrow> untouched c0 (step (Tick d) c)"
  using valid_later [of "mgr c" "world c" d]
  by (auto simp add: untouched_def session_valid_def)

lemma sharing_Tick: "sharing c0 n c \<Longrightarrow> sharing c0 n (step (Tick d) c)"
  using valid_later [of "mgr c" "world c" d]
  by (auto simp add: sharing_def session_valid_def)

lemma sharing_Call:
  assumes "sharing c0 n c" and "0 < n"
  shows "sharing c0 (Suc n) (step Call c)"
proof -
  from assms(2) have "replicate (n - 1) (AwaitsJoined 0) @ [AwaitsJoined 0] =
                      replicate n (AwaitsJoined 0)"
    by (cases n) (simp_all add: replicate_append_same)
  with assms(1) show ?thesis
    by (simp add: sharing_def session_valid_def)
qed

lemma untouched_Call:
  assumes "untouched c0 c" and "truthy (password (mgr c0))"
    and "baseUrl (http_client c0) \<noteq> []"
  shows "sharing c0 1 (step Call c)"
proof -
  let ?login = "loginOptions (the (password (mgr c0))) None"
  obtain r w1 where req: "request (http_client c0) ?login None (world c) = (r, w1)"
    by (cases "request (http_client c0) ?login None (world c)")
  have nr: "noRetry ?login = Some True" by (simp add: loginOptions_def)
  from request_noRetry [OF assms(3) nr req]
  have r: "r = attemptOutcome (http_client c0) ?login None (world c) 0"
    and one: "attempts_made (world c) w1 = 1" by simp_all
  from assms(1) have same: "net (world c) = net (world c0)" "trace (world c) = trace (world c0)"
    by (simp_all add: untouched_def)
  then have r0: "r = login_result c0"
    using r by (simp add: login_result_def attemptOutcome_def fetches_def)
  from one same have made: "attempts_made (world c0) ((world c)\<lparr>trace := trace w1\<rparr>) = 1"
    by (simp add: attempts_made_def fetches_def)
  have started: "authenticate_begin (http_client c) None (mgr c) (world c) =
                 (Pending (login_result c0), (world c)\<lparr>trace := trace w1\<rparr>)"
    using assms(1,2) req r0 by (simp add: authenticate_begin_def untouched_def)
  have valid: "\<not> (hasSession (mgr c) (world c) \<and> \<not> needsRefresh (mgr c) (world c))"
    using assms(1) by (simp add: untouched_def session_valid_def)
  have valid': "\<not> (hasSession ((mgr c)\<lparr>refreshPromise := Some (0::nat)\<rparr>) ((world c)\<lparr>trace := trace w1\<rparr>) \<and>
                   \<not> needsRefresh ((mgr c)\<lparr>refreshPromise := Some (0::nat)\<rparr>) ((world c)\<lparr>trace := trace w1\<rparr>))"
    using valid
    by (auto simp add: hasSession_def isExpired_def needsRefresh_def Let_def
        split: option.splits if_splits)
  from assms(1) started valid valid' made show ?thesis
    by (simp add: sharing_def untouched_def session_valid_def)
qed

lemma pre_settle_exec:
  assumes "set pre \<subseteq> insert Call (range Tick)" and "pre_settle c0 n c"
    and "truthy (password (mgr c0))" and "baseUrl (http_client c0) \<noteq> []"
  shows "pre_settle c0 (n + count_list pre Call) (exec pre c)"
  using assms(1,2)
proof (induction pre arbitrary: n c)
  case Nil
  then show ?case by (simp add: exec_def)
next
  case (Cons s pre)
  from Cons.prems(1) have s: "s = Call \<or> (\<exists>d. s = Tick d)"
    and rest: "set pre \<subseteq> insert Call (range Tick)" by auto
  from s show ?case
  proof
    assume call: "s = Call"
    have "pre_settle c0 (Suc n) (step Call c)"
    proof (cases "n = 0")
      case True
      with Cons.prems(2) untouched_Call [OF _ assms(3,4)] show ?thesis
        by (simp add: pre_settle_def)
    next
      case False
      with Cons.prems(2) sharing_Call [of c0 n c] show ?thesis
        by (simp add: pre_settle_def)
    qed
    from Cons.IH [OF rest this] call show ?thesis
      by (simp add: exec_def)
  next
    assume "\<exists>d. s = Tick d"
    then obtain d where tick: "s = Tick d" by blast
    have "pre_settle c0 n (step (Tick d) c)"
      using Cons.prems(2) untouched_Tick [of c0 c d] sharing_Tick [of c0 n c d]
      by (simp add: pre_settle_def del: step.simps)
    from Cons.IH [OF rest this] tick show ?thesis
      by (simp add: exec_def)
  qed
qed

lemma sharing_Settle:
  assumes "sharing c0 n c" and "0 < n"
  shows "finishing (login_outcome (login_result c0)) 1 c0 n {} (step (Settle 0) c)"
proof -
  obtain v sm1 where a: "authenticated (login_result c0) (mgr c) (world c) = (v, sm1)"
    by (cases "authenticated (login_result c0) (mgr c) (world c)")
  from authenticated_outcome [of "login_result c0" "mgr c" "world c"] a
  have v: "v = login_outcome (login_result c0)" by simp
  from authenticated_refreshPromise [of "login_result c0" "mgr c" "world c"] a
  have m: "refreshPromise sm1 = refreshPromise (mgr c)" by simp
  have nth: "(AwaitsCreated 0 # replicate (n - 1) (AwaitsJoined 0)) ! i =
             (if i = 0 then AwaitsCreated 0 else AwaitsJoined 0)" if "i < n" for i
    using that by (cases i) simp_all
  from assms a v m nth show ?thesis
    by (simp add: sharing_def finishing_def)
qed

lemma finishing_Tick: "finishing v k c0 n R c \<Longrightarrow> finishing v k c0 n R (step (Tick d) c)"
  by (simp add: finishing_def)

lemma finishing_Resume_out:
  "finishing v k c0 n R c \<Longrightarrow> \<not> i < n \<Longrightarrow> finishing v k c0 n R (step (Resume i) c)"
  by (simp add: finishing_def)

lemma finishing_Resume_done:
  "finishing v k c0 n R c \<Longrightarrow> i < n \<Longrightarrow> i \<in> R \<Longrightarrow> finishing v k c0 n R (step (Resume i) c)"
  by (simp add: finishing_def)

lemma finishing_Resume_new:
  assumes "finishing v k c0 n R c" and "i < n" and "i \<notin> R"
  shows "finishing v k c0 n (insert i R) (step (Resume i) c)"
proof -
  let ?v = v
  from assms have len: "length (callers c) = n" and p: "promises c = [Settled ?v]"
    and ci: "callers c ! i = (if i = 0 then AwaitsCreated 0 else AwaitsJoined 0)"
    and others: "\<forall>j<n. callers c ! j =
        (if j \<in> R then Finished ?v else if j = 0 then AwaitsCreated 0 else AwaitsJoined 0)"
    and marker: "refreshPromise (mgr c) = (if 0 \<in> R \<and> ?v \<noteq> Rejects then None else Some 0)"
    and made: "attempts_made (world c0) (world c) = k"
    by (simp_all add: finishing_def)
  show ?thesis
  proof (cases "i = 0")
    case True
    show ?thesis
    proof (cases ?v)
      case (Resolves b)
      with True assms(2,3) len p ci others marker made show ?thesis
        by (auto simp add: finishing_def nth_list_update)
    next
      case Rejects
      with True assms(2,3) len p ci others marker made show ?thesis
        by (auto simp add: finishing_def nth_list_update)
    qed
  next
    case False
    with assms(2,3) len p ci others marker made show ?thesis
      by (auto simp add: finishing_def nth_list_update)
  qed
qed

lemma finishing_Resume:
  assumes "finishing v k c0 n R c"
  shows "finishing v k c0 n (if i < n then insert i R else R) (step (Resume i) c)"
proof (cases "i < n")
  case False
  with finishing_Resume_out [OF assms False] show ?thesis
    by (simp del: step.simps)
next
  case True
  show ?thesis
  proof (cases "i \<in> R")
    case True
    with \<open>i < n\<close> finishing_Resume_done [OF assms \<open>i < n\<close> True] show ?thesis
      by (simp add: insert_absorb del: step.simps)
  next
    case False
    with finishing_Resume_new [OF assms True False] True show ?thesis
      by (simp del: step.simps)
  qed
qed

lemma finishing_exec:
  assumes "set post \<subseteq> range Resume \<union> range Tick" and "finishing v k c0 n R c"
  shows "finishing v k c0 n (R \<union> {i. i < n \<and> Resume i \<in> set post}) (exec post c)"
  using assms
proof (induction post arbitrary: R c)
  case Nil
  then show ?case by (simp add: exec_def)
next
  case (Cons s post)
  from Cons.prems(1) have rest: "set post \<subseteq> range Resume \<union> range Tick"
    by simp
  from Cons.prems(1) have s: "s \<in> range Resume \<union> range Tick"
    by simp
  have unfold: "exec (x # post) c = exec post (step x c)" for x
    by (simp add: exec_def)
  show ?case
  proof (cases s)
    case Call
    with s show ?thesis by (simp add: image_iff)
  next
    case (Settle p)
    with s show ?thesis by (simp add: image_iff)
  next
    case (Resume i)
    let ?R = "if i < n then insert i R else R"
    from Cons.IH [OF rest finishing_Resume [OF Cons.prems(2), of i]]
    have "finishing v k c0 n (?R \<union> {j. j < n \<and> Resume j \<in> set post})
            (exec post (step (Resume i) c))" .
    moreover have "?R \<union> {j. j < n \<and> Resume j \<in> set post} =
                   R \<union> {j. j < n \<and> Resume j \<in> set (s # post)}"
      unfolding Resume by (rule set_eqI) (simp split: if_splits, blast)
    ultimately show ?thesis
      unfolding Resume by (simp only: unfold)
  next
    case (Tick d)
    from Cons.IH [OF rest finishing_Tick [OF Cons.prems(2), of d]]
    have "finishing v k c0 n (R \<union> {j. j < n \<and> Resume j \<in> set post})
            (exec post (step (Tick d) c))" .
    moreover have "{j. j < n \<and> Resume j \<in> set post} = {j. j < n \<and> Resume j \<in> set (s # post)}"
      unfolding Tick by simp
    ultimately show ?thesis
      unfolding Tick by (simp only: unfold)
  qed
qed

lemma exec_append: "exec (xs @ ys) c = exec ys (exec xs c)"
  by (simp add: exec_def)

lemma exec_Cons: "exec (s # ys) c = exec ys (step s c)"
  by (simp add: exec_def)

text \<open>A client without a password issues no login request, whatever the schedule.\<close>

lemma authenticated_password:
  "password (snd (authenticated r sm w)) = password sm"
  by (simp add: authenticated_def updateSession_def
      split: Result.splits option.splits Payload.splits)

lemma step_no_password:
  assumes "\<not> truthy (password (mgr c))"
  shows "\<not> truthy (password (mgr (step s c))) \<and>
         fetches (world (step s c)) = fetches (world c)"
proof (cases s)
  case Call
  with assms show ?thesis
    by (simp add: authenticate_begin_def Let_def split: option.splits)
next
  case (Settle p)
  show ?thesis
  proof (cases "p < length (promises c)")
    case False
    with Settle assms show ?thesis by simp
  next
    case True
    show ?thesis
    proof (cases "promises c ! p")
      case (Pending r)
      obtain v sm1 where a: "authenticated r (mgr c) (world c) = (v, sm1)"
        by (cases "authenticated r (mgr c) (world c)")
      from authenticated_password [of r "mgr c" "world c"] a
      have "password sm1 = password (mgr c)" by simp
      with Settle True Pending a assms show ?thesis by simp
    next
      case (Settled v)
      with Settle True assms show ?thesis by simp
    qed
  qed
next
  case (Resume i)
  with assms show ?thesis
    by (simp split: Caller.splits Attempt.splits Settled.splits)
next
  case (Tick d)
  with assms show ?thesis by simp
qed

lemma exec_no_password:
  "\<not> truthy (password (mgr c)) \<Longrightarrow> fetches (world (exec steps c)) = fetches (world c)"
proof (induction steps arbitrary: c)
  case Nil
  then show ?case by (simp add: exec_def)
next
  case (Cons s steps)
  from step_no_password [OF Cons.prems, of s]
  have p: "\<not> truthy (password (mgr (step s c)))"
    and f: "fetches (world (step s c)) = fetches (world c)"
    by simp_all
  from Cons.IH [OF p] f show ?case
    by (simp only: exec_Cons)
qed

lemma refused_Tick: "refused c0 n c \<Longrightarrow> refused c0 n (step (Tick d) c)"
  using valid_later [of "mgr c" "world c" d]
  by (auto simp add: refused_def session_valid_def)

lemma refused_Call:
  assumes "refused c0 n c" and "0 < n"
  shows "refused c0 (Suc n) (step Call c)"
proof -
  from assms(2) have "replicate (n - 1) (AwaitsJoined 0) @ [AwaitsJoined 0] =
                      replicate n (AwaitsJoined 0)"
    by (cases n) (simp_all add: replicate_append_same)
  with assms(1) show ?thesis
    by (simp add: refused_def session_valid_def)
qed

lemma untouched_Call_no_password:
  assumes "untouched c0 c" and "\<not> truthy (password (mgr c0))"
  shows "refused c0 1 (step Call c)"
proof -
  have started: "authenticate_begin (http_client c) None (mgr c) (world c) =
                   (Settled (Resolves False), world c)"
    using assms by (simp add: authenticate_begin_def untouched_def)
  have valid: "\<not> (hasSession (mgr c) (world c) \<and> \<not> needsRefresh (mgr c) (world c))"
    using assms(1) by (simp add: untouched_def session_valid_def)
  have valid': "\<not> (hasSession ((mgr c)\<lparr>refreshPromise := Some (0::nat)\<rparr>) (world c) \<and>
                   \<not> needsRefresh ((mgr c)\<lparr>refreshPromise := Some (0::nat)\<rparr>) (world c))"
    using valid
    by (auto simp add: hasSession_def isExpired_def needsRefresh_def Let_def
        split: option.splits if_splits)
  have made: "attempts_made (world c0) (world c) = 0"
    using assms(1) by (simp add: untouched_def attempts_made_def fetches_def)
  from assms(1) started valid valid' made show ?thesis
    by (simp add: refused_def untouched_def session_valid_def)
qed

lemma pre_refused_exec:
  assumes "set pre \<subseteq> insert Call (range Tick)" and "pre_refused c0 n c"
    and "\<not> truthy (password (mgr c0))"
  shows "pre_refused c0 (n + count_list pre Call) (exec pre c)"
  using assms(1,2)
proof (induction pre arbitrary: n c)
  case Nil
  then show ?case by (simp add: exec_def)
next
  case (Cons s pre)
  from Cons.prems(1) have s: "s = Call \<or> (\<exists>d. s = Tick d)"
    and rest: "set pre \<subseteq> insert Call (range Tick)" by auto
  from s show ?case
  proof
    assume call: "s = Call"
    have "pre_refused c0 (Suc n) (step Call c)"
    proof (cases "n = 0")
      case True
      with Cons.prems(2) untouched_Call_no_password [OF _ assms(3)] show ?thesis
        by (simp add: pre_refused_def)
    next
      case False
      with Cons.prems(2) refused_Call [of c0 n c] show ?thesis
        by (simp add: pre_refused_def)
    qed
    from Cons.IH [OF rest this] call show ?thesis
      by (simp add: exec_def)
  next
    assume "\<exists>d. s = Tick d"
    then obtain d where tick: "s = Tick d" by blast
    have "pre_refused c0 n (step (Tick d) c)"
      using Cons.prems(2) untouched_Tick [of c0 c d] refused_Tick [of c0 n c d]
      by (simp add: pre_refused_def del: step.simps)
    from Cons.IH [OF rest this] tick show ?thesis
      by (simp add: exec_def)
  qed
qed

lemma refused_finishing:
  assumes "refused c0 n c" and "0 < n"
  shows "finishing (Resolves False) 0 c0 n {} c"
proof -
  have nth: "(AwaitsCreated 0 # replicate (n - 1) (AwaitsJoined 0)) ! i =
             (if i = 0 then AwaitsCreated 0 else AwaitsJoined 0)" if "i < n" for i
    using that by (cases i) simp_all
  from assms nth show ?thesis
    by (simp add: refused_def finishing_def)
qed

text \<open>The two cases of the claim, each for every schedule of its shape.\<close>

lemma concurrent_with_password:
  assumes fresh: "promises c = []" "callers c = []" "refreshPromise (mgr c) = None"
    and invalid: "\<not> session_valid c"
    and pw: "truthy (password (mgr c))"
    and base: "baseUrl (http_client c) \<noteq> []"
    and pre: "set pre \<subseteq> insert Call (range Tick)" "count_list pre Call = N" "0 < N"
    and post: "set post \<subseteq> range Resume \<union> range Tick" "\<forall>i<N. Resume i \<in> set post"
  shows "attempts_made (world c) (world (exec pre c)) = 1 \<and>
         callers (exec pre c) = AwaitsCreated 0 # replicate (N - 1) (AwaitsJoined 0) \<and>
         refreshPromise (mgr (exec pre c)) = Some 0 \<and>
         attempts_made (world c) (world (exec (pre @ Settle 0 # post) c)) = 1 \<and>
         callers (exec (pre @ Settle 0 # post) c) =
           replicate N (Finished (login_outcome (login_result c))) \<and>
         (login_outcome (login_result c) \<noteq> Rejects \<longrightarrow>
            refreshPromise (mgr (exec (pre @ Settle 0 # post) c)) = None)"
proof -
  let ?v = "login_outcome (login_result c)"
  let ?c1 = "exec pre c"
  let ?c3 = "exec (pre @ Settle 0 # post) c"
  from fresh invalid have "pre_settle c 0 c"
    by (simp add: pre_settle_def untouched_def)
  from pre_settle_exec [OF pre(1) this pw base] pre(2,3)
  have sh: "sharing c N ?c1" by (simp add: pre_settle_def)
  from sharing_Settle [OF sh pre(3)]
  have "finishing ?v 1 c N {} (step (Settle 0) ?c1)" .
  from finishing_exec [OF post(1) this]
  have "finishing ?v 1 c N ({} \<union> {i. i < N \<and> Resume i \<in> set post})
          (exec post (step (Settle 0) ?c1))" .
  moreover have "{} \<union> {i. i < N \<and> Resume i \<in> set post} = {i. i < N}"
    using post(2) by auto
  moreover have "exec post (step (Settle 0) ?c1) = ?c3"
    by (simp add: exec_append exec_Cons del: step.simps)
  ultimately have fin: "finishing ?v 1 c N {i. i < N} ?c3" by (simp del: step.simps)
  from fin have len: "length (callers ?c3) = N"
    and all: "\<forall>i<N. callers ?c3 ! i = Finished ?v"
    by (simp_all add: finishing_def)
  then have callers3: "callers ?c3 = replicate N (Finished ?v)"
    by (simp add: list_eq_iff_nth_eq)
  from fin pre(3) have marker: "?v \<noteq> Rejects \<longrightarrow> refreshPromise (mgr ?c3) = None"
    by (simp add: finishing_def)
  from fin have made3: "attempts_made (world c) (world ?c3) = 1"
    by (simp add: finishing_def)
  from sh callers3 marker made3 show ?thesis
    by (simp add: sharing_def)
qed

lemma concurrent_without_password:
  assumes fresh: "promises c = []" "callers c = []" "refreshPromise (mgr c) = None"
    and invalid: "\<not> session_valid c"
    and nopw: "\<not> truthy (password (mgr c))"
    and pre: "set pre \<subseteq> insert Call (range Tick)" "count_list pre Call = N" "0 < N"
    and post: "set post \<subseteq> range Resume \<union> range Tick" "\<forall>i<N. Resume i \<in> set post"
  shows "(\<forall>steps. attempts_made (world c) (world (exec steps c)) = 0) \<and>
         promises (exec pre c) = [Settled (Resolves False)] \<and>
         callers (exec pre c) = AwaitsCreated 0 # replicate (N - 1) (AwaitsJoined 0) \<and>
         refreshPromise (mgr (exec pre c)) = Some 0 \<and>
         callers (exec (pre @ post) c) = replicate N (Finished (Resolves False)) \<and>
         refreshPromise (mgr (exec (pre @ post) c)) = None"
proof -
  let ?c1 = "exec pre c"
  let ?c3 = "exec (pre @ post) c"
  have none: "\<forall>steps. attempts_made (world c) (world (exec steps c)) = 0"
    using exec_no_password [OF nopw] by (simp add: attempts_made_def)
  from fresh invalid have "pre_refused c 0 c"
    by (simp add: pre_refused_def untouched_def)
  from pre_refused_exec [OF pre(1) this nopw] pre(2,3)
  have rf: "refused c N ?c1" by (simp add: pre_refused_def)
  from finishing_exec [OF post(1) refused_finishing [OF rf pre(3)]]
  have "finishing (Resolves False) 0 c N ({} \<union> {i. i < N \<and> Resume i \<in> set post})
          (exec post ?c1)" .
  moreover have "{} \<union> {i. i < N \<and> Resume i \<in> set post} = {i. i < N}"
    using post(2) by auto
  moreover have "exec post ?c1 = ?c3"
    by (simp add: exec_append)
  ultimately have fin: "finishing (Resolves False) 0 c N {i. i < N} ?c3" by simp
  from fin have len: "length (callers ?c3) = N"
    and all: "\<forall>i<N. callers ?c3 ! i = Finished (Resolves False)"
    by (simp_all add: finishing_def)
  then have callers3: "callers ?c3 = replicate N (Finished (Resolves False))"
    by (simp add: list_eq_iff_nth_eq)
  from fin pre(3) have marker: "refreshPromise (mgr ?c3) = None"
    by (simp add: finishing_def)
  from none rf callers3 marker show ?thesis
    by (simp add: refused_def)
qed

text \<open>
  Claim C3, as amended. Take a client on which no call of \<open>ensureSession\<close> is under way
  and no valid Session exists (or a refresh is needed). Let \<open>N \<ge> 1\<close> callers call
  \<open>ensureSession\<close>, with any passing of time between the calls, and let then every caller
  go on, in any order.

  With a password and a base URL: the calls issue exactly one login request, and all \<open>N\<close>
  callers wait for the same promise, which \<open>refreshPromise\<close> holds. Once the login has
  returned and every caller has gone on, still exactly one login request has been
  issued and every caller has observed the outcome of that one attempt; when the
  attempt was resolved, the marker \<open>refreshPromise\<close> is cleared.

  Without a password: no schedule at all issues a login request; the calls share one
  attempt, which is resolved with false from the start, every caller observes false,
  and the marker is cleared.
\<close>

theorem concurrent_ensureSession:
  assumes fresh: "promises c = []" "callers c = []" "refreshPromise (mgr c) = None"
    and invalid: "\<not> session_valid c"
    and pre: "set pre \<subseteq> insert Call (range Tick)" "count_list pre Call = N" "0 < N"
    and post: "set post \<subseteq> range Resume \<union> range Tick" "\<forall>i<N. Resume i \<in> set post"
  shows "(truthy (password (mgr c)) \<and> baseUrl (http_client c) \<noteq> [] \<longrightarrow>
           attempts_made (world c) (world (exec pre c)) = 1 \<and>
           callers (exec pre c) = AwaitsCreated 0 # replicate (N - 1) (AwaitsJoined 0) \<and>
           refreshPromise (mgr (exec pre c)) = Some 0 \<and>
           attempts_made (world c) (world (exec (pre @ Settle 0 # post) c)) = 1 \<and>
           callers (exec (pre @ Settle 0 # post) c) =
             replicate N (Finished (login_outcome (login_result c))) \<and>
           (login_outcome (login_result c) \<noteq> Rejects \<longrightarrow>
              refreshPromise (mgr (exec (pre @ Settle 0 # post) c)) = None)) \<and>
         (\<not> truthy (password (mgr c)) \<longrightarrow>
           (\<forall>steps. attempts_made (world c) (world (exec steps c)) = 0) \<and>
           promises (exec pre c) = [Settled (Resolves False)] \<and>
           callers (exec pre c) = AwaitsCreated 0 # replicate (N - 1) (AwaitsJoined 0) \<and>
           refreshPromise (mgr (exec pre c)) = Some 0 \<and>
           callers (exec (pre @ post) c) = replicate N (Finished (Resolves False)) \<and>
           refreshPromise (mgr (exec (pre @ post) c)) = None)"
proof (intro conjI impI)
  assume "truthy (password (mgr c)) \<and> baseUrl (http_client c) \<noteq> []"
  then have pw: "truthy (password (mgr c))" and base: "baseUrl (http_client c) \<noteq> []"
    by simp_all
  note with_pw = concurrent_with_password [OF fresh invalid pw base pre post]
  from with_pw show "attempts_made (world c) (world (exec pre c)) = 1" by simp
  from with_pw show
    "callers (exec pre c) = AwaitsCreated 0 # replicate (N - 1) (AwaitsJoined 0)" by simp
  from with_pw show "refreshPromise (mgr (exec pre c)) = Some 0" by simp
  from with_pw show
    "attempts_made (world c) (world (exec (pre @ Settle 0 # post) c)) = 1" by simp
  from with_pw show
    "callers (exec (pre @ Settle 0 # post) c) =
       replicate N (Finished (login_outcome (login_result c)))" by simp
  from with_pw show "refreshPromise (mgr (exec (pre @ Settle 0 # post) c)) = None"
    if "login_outcome (login_result c) \<noteq> Rejects" using that by simp
next
  assume nopw: "\<not> truthy (password (mgr c))"
  note without = concurrent_without_password [OF fresh invalid nopw pre post]
  from without show "\<forall>steps. attempts_made (world c) (world (exec steps c)) = 0" by simp
  from without show "promises (exec pre c) = [Settled (Resolves False)]" by simp
  from without show
    "callers (exec pre c) = AwaitsCreated 0 # replicate (N - 1) (AwaitsJoined 0)" by simp
  from without show "refreshPromise (mgr (exec pre c)) = Some 0" by simp
  from without show
    "callers (exec (pre @ post) c) = replicate N (Finished (Resolves False))" by simp
  from without show "refreshPromise (mgr (exec (pre @ post) c)) = None" by simp
qed

text \<open>
  With a password: three callers, the promise settled after the third call, the
  callers resumed in the order 2, 0, 1: one login request, three times true, marker
  cleared. Without a password: the same calls and resumptions: no login request, three
  times false, marker cleared.
\<close>

theorem concurrent_ensureSession_witness:
  "attempts_made (world password_client)
     (world (exec ([Call, Tick 3, Call, Call] @ Settle 0 # [Resume 2, Tick 1, Resume 0, Resume 1])
               password_client)) = 1 \<and>
   callers (exec ([Call, Tick 3, Call, Call] @ Settle 0 # [Resume 2, Tick 1, Resume 0, Resume 1])
              password_client) = replicate 3 (Finished (Resolves True)) \<and>
   refreshPromise
     (mgr (exec ([Call, Tick 3, Call, Call] @ Settle 0 # [Resume 2, Tick 1, Resume 0, Resume 1])
             password_client)) = None \<and>
   attempts_made (world anonymous_client)
     (world (exec ([Call, Tick 3, Call, Call] @ [Resume 2, Tick 1, Resume 0, Resume 1])
               anonymous_client)) = 0 \<and>
   callers (exec ([Call, Tick 3, Call, Call] @ [Resume 2, Tick 1, Resume 0, Resume 1])
              anonymous_client) = replicate 3 (Finished (Resolves False)) \<and>
   refreshPromise
     (mgr (exec ([Call, Tick 3, Call, Call] @ [Resume 2, Tick 1, Resume 0, Resume 1])
             anonymous_client)) = None"
proof -
  have fresh: "promises password_client = []" "callers password_client = []"
    "refreshPromise (mgr password_client) = None"
    by (simp_all add: password_client_def new_Client_def new_SessionManager_def)
  have fresh': "promises anonymous_client = []" "callers anonymous_client = []"
    "refreshPromise (mgr anonymous_client) = None"
    by (simp_all add: anonymous_client_def new_Client_def new_SessionManager_def)
  have invalid: "\<not> session_valid password_client" by code_simp
  have invalid': "\<not> session_valid anonymous_client" by code_simp
  have pw: "truthy (password (mgr password_client))" by code_simp
  have nopw: "\<not> truthy (password (mgr anonymous_client))" by code_simp
  have base: "baseUrl (http_client password_client) \<noteq> []" by code_simp
  have pre: "set [Call, Tick 3, Call, Call] \<subseteq> insert Call (range Tick)"
    "count_list [Call, Tick 3, Call, Call] Call = 3" "0 < (3::nat)"
    by simp_all
  have post: "set [Resume 2, Tick 1, Resume 0, Resume 1] \<subseteq> range Resume \<union> range Tick"
    "\<forall>i<3. Resume i \<in> set [Resume 2, Tick 1, Resume 0, Resume 1]"
    by (simp_all add: numeral_3_eq_3 less_Suc_eq)
  have outcome: "login_outcome (login_result password_client) = Resolves True"
    by code_simp
  from concurrent_ensureSession [OF fresh invalid pre post] pw base outcome
  have with_pw:
    "attempts_made (world password_client)
       (world (exec ([Call, Tick 3, Call, Call] @ Settle 0 # [Resume 2, Tick 1, Resume 0, Resume 1])
                 password_client)) = 1 \<and>
     callers (exec ([Call, Tick 3, Call, Call] @ Settle 0 # [Resume 2, Tick 1, Resume 0, Resume 1])
                password_client) = replicate 3 (Finished (Resolves True)) \<and>
     refreshPromise
       (mgr (exec ([Call, Tick 3, Call, Call] @ Settle 0 # [Resume 2, Tick 1, Resume 0, Resume 1])
               password_client)) = None"
    by simp
  from concurrent_ensureSession [OF fresh' invalid' pre post] nopw
  have without:
    "attempts_made (world anonymous_client)
       (world (exec ([Call, Tick 3, Call, Call] @ [Resume 2, Tick 1, Resume 0, Resume 1])
                 anonymous_client)) = 0 \<and>
     callers (exec ([Call, Tick 3, Call, Call] @ [Resume 2, Tick 1, Resume 0, Resume 1])
                anonymous_client) = replicate 3 (Finished (Resolves False)) \<and>
     refreshPromise
       (mgr (exec ([Call, Tick 3, Call, Call] @ [Resume 2, Tick 1, Resume 0, Resume 1])
               anonymous_client)) = None"
    by simp
  from with_pw without show ?thesis by simp
qed

text \<open>
  Claim C3 as stated fails on a client without a password: two concurrent calls, made
  while no valid Session exists, issue no login request at all (both observe false).
  It also fails when the backend answers the login with a success that carries no
  session (a 204): the shared attempt is rejected, both callers observe the rejection,
  and the pending marker stays set after they have resumed.
\<close>

theorem concurrent_ensureSession_counterexample:
  "\<not> session_valid anonymous_client \<and>
   attempts_made (world anonymous_client)
     (world (exec [Call, Call, Resume 0, Resume 1] anonymous_client)) = 0 \<and>
   callers (exec [Call, Call, Resume 0, Resume 1] anonymous_client) =
     [Finished (Resolves False), Finished (Resolves False)] \<and>
   \<not> session_valid no_content_client \<and>
   callers (exec [Call, Call, Settle 0, Resume 0, Resume 1] no_content_client) =
     [Finished Rejects, Finished Rejects] \<and>
   refreshPromise (mgr (exec [Call, Call, Settle 0, Resume 0, Resume 1] no_content_client)) =
     Some 0"
  by code_simp


end
